theory Spec2Isabelle
  imports Main
begin

section \<open>Data model\<close>

text \<open>
  The server is JavaScript. Numbers that the code uses as positions, lengths and versions
  are modelled as unbounded integers (\<open>int\<close>), so a negative position or length sent by a
  client is representable, as it is in the source. Strings are lists of code units; the
  length of a string is the length of the list.

  An operation is the object the OT service documents:
  \<^verbatim>\<open>{ type: "insert", position, text, baseVersion }\<close> and
  \<^verbatim>\<open>{ type: "delete", position, length, baseVersion }\<close>.
  The field \<open>type\<close> stays a string, since the handler forwards any non-empty type.
  The field \<open>text\<close> is \<open>optext\<close> and the field \<open>length\<close> is \<open>oplength\<close> here.
  An operation that does not carry \<open>text\<close> holds the empty string there, and one that does
  not carry \<open>length\<close> holds 0: the falsy tests of the handler do not tell the two apart,
  and the service reads \<open>text\<close> only from an insert and \<open>length\<close> only from a delete.
\<close>

type_synonym user_id = string
type_synonym document_id = string

record operation =
  optype :: string
  position :: int
  optext :: string
  oplength :: int
  baseVersion :: int

datatype role = Owner | Editor | Commenter | Viewer

text \<open>An entry of \<open>versionHistory\<close>; its wall-clock \<open>timestamp\<close> is left out.\<close>

record version_entry =
  snapshot_version :: int
  contentSnapshot :: string
  editedBy :: user_id

record document =
  title :: string
  content :: string
  owner :: user_id
  sharedWith :: "(user_id \<times> role) list"
  version :: int
  versionHistory :: "version_entry list"

text \<open>An entry of a document's operation buffer: \<^verbatim>\<open>{ version, operation }\<close>.\<close>

record buffer_entry =
  entry_version :: int
  entry_operation :: operation

section \<open>Document model: \<open>pushVersionSnapshot\<close>\<close>

definition MAX_HISTORY_SIZE :: nat where
  "MAX_HISTORY_SIZE = 50"

definition pushVersionSnapshot :: "user_id \<Rightarrow> document \<Rightarrow> document" where
  "pushVersionSnapshot by_user d =
     (let h = versionHistory d @
                [\<lparr>snapshot_version = version d, contentSnapshot = content d, editedBy = by_user\<rparr>]
      in d\<lparr>versionHistory :=
             (if length h > MAX_HISTORY_SIZE then drop (length h - MAX_HISTORY_SIZE) h else h)\<rparr>)"

section \<open>OT service\<close>

definition MAX_BUFFER_SIZE :: nat where
  "MAX_BUFFER_SIZE = 200"

text \<open>
  \<open>transformOperation\<close>: the copy \<^verbatim>\<open>{ ...opA }\<close> is \<open>opA\<close> itself, and each of the four
  \<^verbatim>\<open>if\<close> statements of the source updates it in turn. The conditions read \<open>opA\<close> and
  \<open>opB\<close>, the updates read and write \<open>transformed\<close>.
\<close>

definition transformOperation :: "operation \<Rightarrow> operation \<Rightarrow> operation" where
  "transformOperation opA opB =
     (let transformed = opA;
          transformed =
            (if optype opA = ''insert'' \<and> optype opB = ''insert'' then
               (if position opB \<le> position opA
                then transformed\<lparr>position := position transformed + int (length (optext opB))\<rparr>
                else transformed)
             else transformed);
          transformed =
            (if optype opA = ''insert'' \<and> optype opB = ''delete'' then
               (if position opB < position opA
                then transformed\<lparr>position := position transformed
                                     - min (oplength opB) (position opA - position opB)\<rparr>
                else transformed)
             else transformed);
          transformed =
            (if optype opA = ''delete'' \<and> optype opB = ''insert'' then
               (if position opB \<le> position opA
                then transformed\<lparr>position := position transformed + int (length (optext opB))\<rparr>
                else transformed)
             else transformed);
          transformed =
            (if optype opA = ''delete'' \<and> optype opB = ''delete'' then
               (if position opB \<ge> position opA + oplength opA then transformed
                else if position opB + oplength opB \<le> position opA
                then transformed\<lparr>position := position transformed - oplength opB\<rparr>
                else
                  (let overlapStart = max (position opA) (position opB);
                       overlapEnd = min (position opA + oplength opA) (position opB + oplength opB);
                       overlapLength = max 0 (overlapEnd - overlapStart);
                       transformed = transformed\<lparr>oplength := oplength transformed - overlapLength\<rparr>;
                       transformed = transformed\<lparr>position := min (position opA) (position opB)\<rparr>
                   in if oplength transformed \<le> 0
                      then transformed\<lparr>oplength := 0, optype := ''noop''\<rparr>
                      else transformed))
             else transformed)
      in transformed)"

text \<open>
  \<^verbatim>\<open>String.prototype.slice(start, end)\<close>: a negative index counts from the end of the
  string, every index is clamped to the string, and an empty range gives the empty string.
\<close>

definition js_slice :: "string \<Rightarrow> int \<Rightarrow> int \<Rightarrow> string" where
  "js_slice s start end =
     (let n = int (length s);
          from = (if start < 0 then max (n + start) 0 else min start n);
          to = (if end < 0 then max (n + end) 0 else min end n)
      in take (nat (to - from)) (drop (nat from) s))"

definition js_slice_from :: "string \<Rightarrow> int \<Rightarrow> string" where
  "js_slice_from s start = js_slice s start (int (length s))"

definition applyOperation :: "string \<Rightarrow> operation \<Rightarrow> string" where
  "applyOperation cont operation =
     (if optype operation = ''noop'' then cont
      else if optype operation = ''insert'' then
        (let pos = min (max 0 (position operation)) (int (length cont))
         in js_slice cont 0 pos @ optext operation @ js_slice_from cont pos)
      else if optype operation = ''delete'' then
        (let pos = min (max 0 (position operation)) (int (length cont));
             end = min (pos + oplength operation) (int (length cont))
         in js_slice cont 0 pos @ js_slice_from cont end)
      else cont)"

text \<open>
  The state of the service: the document collection of the store (\<open>Document.findById\<close>
  reads it, \<open>document.save()\<close> writes it; both are taken to succeed) and the module's map
  \<open>operationBuffers\<close>.
\<close>

record ot_state =
  documents :: "document_id \<rightharpoonup> document"
  operationBuffers :: "document_id \<rightharpoonup> buffer_entry list"

text \<open>\<open>getBuffer\<close> creates the empty buffer of a document that has none.\<close>

definition getBuffer ::
  "document_id \<Rightarrow> (document_id \<rightharpoonup> buffer_entry list)
     \<Rightarrow> buffer_entry list \<times> (document_id \<rightharpoonup> buffer_entry list)" where
  "getBuffer documentId bufs =
     (case bufs documentId of
        None \<Rightarrow> ([], bufs(documentId \<mapsto> []))
      | Some b \<Rightarrow> (b, bufs))"

text \<open>The \<^verbatim>\<open>for ... of missedOps\<close> loop of \<open>processOperation\<close>, with its \<^verbatim>\<open>break\<close>.\<close>

fun transformMissed :: "operation \<Rightarrow> buffer_entry list \<Rightarrow> operation" where
  "transformMissed transformedOp [] = transformedOp"
| "transformMissed transformedOp (e # missedOps) =
     (let t = transformOperation transformedOp (entry_operation e)
      in if optype t = ''noop'' then t else transformMissed t missedOps)"

datatype error = DocumentNotFound

record process_result =
  res_document :: document
  transformedOp :: operation
  newVersion :: int

text \<open>The operation after the transform step of \<open>processOperation\<close> (lines 359 to 369).\<close>

definition transformStep :: "document \<Rightarrow> buffer_entry list \<Rightarrow> operation \<Rightarrow> operation" where
  "transformStep doc buffer operation =
     (if baseVersion operation < version doc
      then transformMissed operation
             (filter (\<lambda>entry. entry_version entry > baseVersion operation) buffer)
      else operation)"

definition processOperation ::
  "ot_state \<Rightarrow> document_id \<Rightarrow> operation \<Rightarrow> user_id \<Rightarrow> error + (process_result \<times> ot_state)" where
  "processOperation st documentId operation userId =
     (case documents st documentId of
        None \<Rightarrow> Inl DocumentNotFound
      | Some doc \<Rightarrow>
          (let (buffer, bufs) = getBuffer documentId (operationBuffers st);
               top = transformStep doc buffer operation
           in if optype top = ''noop'' then
                Inr (\<lparr>res_document = doc, transformedOp = top, newVersion = version doc\<rparr>,
                     st\<lparr>operationBuffers := bufs\<rparr>)
              else
                (let doc1 = pushVersionSnapshot userId doc;
                     doc2 = doc1\<lparr>content := applyOperation (content doc1) top\<rparr>;
                     doc3 = doc2\<lparr>version := version doc2 + 1\<rparr>;
                     pushed = buffer @ [\<lparr>entry_version = version doc3, entry_operation = top\<rparr>];
                     trimmed = (if length pushed > MAX_BUFFER_SIZE
                                then drop (length pushed - MAX_BUFFER_SIZE) pushed
                                else pushed)
                 in Inr (\<lparr>res_document = doc3, transformedOp = top, newVersion = version doc3\<rparr>,
                         \<lparr>documents = (documents st)(documentId \<mapsto> doc3),
                          operationBuffers = bufs(documentId \<mapsto> trimmed)\<rparr>))))"

section \<open>Permission service\<close>

definition EDIT_ROLES :: "role set" where
  "EDIT_ROLES = {Owner, Editor}"

definition READ_ROLES :: "role set" where
  "READ_ROLES = {Owner, Editor, Commenter, Viewer}"

definition getUserRole :: "document \<Rightarrow> user_id \<Rightarrow> role option" where
  "getUserRole d userId =
     (if owner d = userId then Some Owner
      else (case find (\<lambda>entry. fst entry = userId) (sharedWith d) of
              Some shareEntry \<Rightarrow> Some (snd shareEntry)
            | None \<Rightarrow> None))"

definition canRead :: "document \<Rightarrow> user_id \<Rightarrow> bool" where
  "canRead d userId =
     (case getUserRole d userId of None \<Rightarrow> False | Some r \<Rightarrow> r \<in> READ_ROLES)"

definition canEdit :: "document \<Rightarrow> user_id \<Rightarrow> bool" where
  "canEdit d userId =
     (case getUserRole d userId of None \<Rightarrow> False | Some r \<Rightarrow> r \<in> EDIT_ROLES)"

datatype access_level = ReadLevel | EditLevel | OwnerLevel

datatype access_error = AccessNotFound | NoAccess | NoEditAccess | OwnerOnly

fun access_error_message :: "access_error \<Rightarrow> string" where
  "access_error_message AccessNotFound = ''Document not found''"
| "access_error_message NoAccess = ''You do not have access to this document''"
| "access_error_message NoEditAccess = ''You do not have edit access to this document''"
| "access_error_message OwnerOnly = ''Only the document owner can perform this action''"

definition getDocumentWithAccess ::
  "(document_id \<rightharpoonup> document) \<Rightarrow> document_id \<Rightarrow> user_id \<Rightarrow> access_level
     \<Rightarrow> access_error + (document \<times> role)" where
  "getDocumentWithAccess docs documentId userId requiredLevel =
     (case docs documentId of
        None \<Rightarrow> Inl AccessNotFound
      | Some d \<Rightarrow>
          (case getUserRole d userId of
             None \<Rightarrow> Inl NoAccess
           | Some r \<Rightarrow>
               if requiredLevel = EditLevel \<and> r \<notin> EDIT_ROLES then Inl NoEditAccess
               else if requiredLevel = OwnerLevel \<and> r \<noteq> Owner then Inl OwnerOnly
               else Inr (d, r)))"

section \<open>Document websocket handlers\<close>

text \<open>
  A socket carries the user that the handshake attached to it. What a handler sends is
  returned as a list of effects, in the order of the source: an event emitted to the socket
  itself, an event emitted to every other socket of a room (\<^verbatim>\<open>socket.to(room).emit\<close>), and
  the calls into the Redis service. The \<open>joinedAt\<close> time of a user entry is left out.
\<close>

type_synonym socket_id = string

record socket =
  socket_ident :: socket_id
  user_ident :: user_id
  username :: string

record user_data =
  ud_userId :: user_id
  ud_username :: string
  ud_role :: role

datatype event =
    Error_message string
  | Document_state document role "user_data list"
  | User_joined user_data
  | Operation_ack operation int user_id
  | Remote_operation operation int user_id string

datatype effect =
    Emit socket_id event
  | EmitToOthers string socket_id event
  | SetPresence document_id user_id user_data
  | SubscribeToDocument document_id
  | SubscribeToPresence document_id
  | PublishPresence document_id event
  | PublishOperation document_id event

text \<open>
  The state of one server instance: the OT service's state, the module map \<open>activeUsers\<close>
  (an insertion-ordered map, so an association list), the members of each socket room and
  the \<open>documentId\<close> property of each socket.
\<close>

record server_state =
  ot :: ot_state
  activeUsers :: "document_id \<rightharpoonup> (user_id \<times> user_data) list"
  rooms :: "string \<Rightarrow> socket_id set"
  socketDocumentId :: "socket_id \<rightharpoonup> document_id"

definition roomName :: "document_id \<Rightarrow> string" where
  "roomName documentId = ''doc:'' @ documentId"

text \<open>\<open>Map.prototype.set\<close>: an existing key keeps its place, a new key goes to the end.\<close>

fun map_set :: "'k \<Rightarrow> 'v \<Rightarrow> ('k \<times> 'v) list \<Rightarrow> ('k \<times> 'v) list" where
  "map_set k v [] = [(k, v)]"
| "map_set k v (p # ps) = (if fst p = k then (k, v) # ps else p # map_set k v ps)"

definition getDocumentUsers ::
  "document_id \<Rightarrow> (document_id \<rightharpoonup> (user_id \<times> user_data) list)
     \<Rightarrow> (user_id \<times> user_data) list \<times> (document_id \<rightharpoonup> (user_id \<times> user_data) list)" where
  "getDocumentUsers documentId au =
     (case au documentId of
        None \<Rightarrow> ([], au(documentId \<mapsto> []))
      | Some users \<Rightarrow> (users, au))"

definition on_join_document ::
  "server_state \<Rightarrow> socket \<Rightarrow> document_id \<Rightarrow> effect list \<times> server_state" where
  "on_join_document s sock documentId =
     (case getDocumentWithAccess (documents (ot s)) documentId (user_ident sock) ReadLevel of
        Inl e \<Rightarrow> ([Emit (socket_ident sock) (Error_message (access_error_message e))], s)
      | Inr (doc, r) \<Rightarrow>
          (let (users0, au) = getDocumentUsers documentId (activeUsers s);
               userData = \<lparr>ud_userId = user_ident sock, ud_username = username sock, ud_role = r\<rparr>;
               users = map_set (user_ident sock) userData users0
           in ([SetPresence documentId (user_ident sock) userData,
                SubscribeToDocument documentId,
                SubscribeToPresence documentId,
                Emit (socket_ident sock) (Document_state doc r (map snd users)),
                EmitToOthers (roomName documentId) (socket_ident sock) (User_joined userData),
                PublishPresence documentId (User_joined userData)],
               s\<lparr>rooms := (rooms s)(roomName documentId :=
                              insert (socket_ident sock) (rooms s (roomName documentId))),
                 socketDocumentId := (socketDocumentId s)(socket_ident sock \<mapsto> documentId),
                 activeUsers := au(documentId \<mapsto> users)\<rparr>)))"

text \<open>
  The \<open>operation\<close> handler. Its payload may lack the operation (\<open>None\<close>). An operation of
  this model always has a position, so of the format test
  \<^verbatim>\<open>!operation || !operation.type || operation.position === undefined\<close> the first two
  disjuncts remain. \<^verbatim>\<open>!operation.text\<close> is true of the empty string and
  \<^verbatim>\<open>!operation.length\<close> is true of 0, and of no other number. An exception of
  \<open>processOperation\<close> is caught and answered with an error message.
\<close>

definition on_operation ::
  "server_state \<Rightarrow> socket \<Rightarrow> document_id \<Rightarrow> operation option \<Rightarrow> effect list \<times> server_state" where
  "on_operation s sock documentId payload =
     (let denied = ([Emit (socket_ident sock) (Error_message ''Edit permission denied.'')], s);
          invalid = ([Emit (socket_ident sock) (Error_message ''Invalid operation format.'')], s)
      in case documents (ot s) documentId of
           None \<Rightarrow> denied
         | Some doc \<Rightarrow>
             if \<not> canEdit doc (user_ident sock) then denied
             else
               (case payload of
                  None \<Rightarrow> invalid
                | Some operation \<Rightarrow>
                    if optype operation = [] then invalid
                    else if optype operation = ''insert'' \<and> optext operation = [] then
                      ([Emit (socket_ident sock)
                          (Error_message ''Insert operation requires text.'')], s)
                    else if optype operation = ''delete'' \<and> oplength operation = 0 then
                      ([Emit (socket_ident sock)
                          (Error_message ''Delete operation requires length.'')], s)
                    else
                      (case processOperation (ot s) documentId operation (user_ident sock) of
                         Inl e \<Rightarrow>
                           ([Emit (socket_ident sock)
                               (Error_message ''Failed to apply operation.'')], s)
                       | Inr (r, ot') \<Rightarrow>
                           ([Emit (socket_ident sock)
                               (Operation_ack (transformedOp r) (newVersion r) (user_ident sock)),
                             EmitToOthers (roomName documentId) (socket_ident sock)
                               (Remote_operation (transformedOp r) (newVersion r)
                                  (user_ident sock) (username sock)),
                             PublishOperation documentId
                               (Remote_operation (transformedOp r) (newVersion r)
                                  (user_ident sock) (username sock))],
                            s\<lparr>ot := ot'\<rparr>))))"

section \<open>The rule of the specification for an insert against a delete\<close>

text \<open>
  Written from the specification's transform table, not from the source: for an insert
  \<open>a\<close> and a delete \<open>b\<close>, if \<open>b.position + b.length \<le> a.position\<close> then
  \<open>a.position - b.length\<close>; else if \<open>b.position < a.position\<close> then \<open>b.position\<close>;
  else unchanged.
\<close>

definition spec_insert_delete_position :: "operation \<Rightarrow> operation \<Rightarrow> int" where
  "spec_insert_delete_position a b =
     (if position b + oplength b \<le> position a then position a - oplength b
      else if position b < position a then position b
      else position a)"

section \<open>Buffers and scenarios\<close>

text \<open>The buffer of a document as \<open>getBuffer\<close> hands it out.\<close>

definition bufferOf :: "ot_state \<Rightarrow> document_id \<Rightarrow> buffer_entry list" where
  "bufferOf st documentId = fst (getBuffer documentId (operationBuffers st))"

text \<open>
  The versions of a buffer increase strictly from entry to entry and none exceeds the
  version \<open>v\<close> of the document.
\<close>

definition versions_increasing :: "int \<Rightarrow> buffer_entry list \<Rightarrow> bool" where
  "versions_increasing v buf \<longleftrightarrow>
     sorted_wrt (<) (map entry_version buf) \<and> list_all (\<lambda>e. entry_version e \<le> v) buf"

text \<open>The user ids of the local active-user map of a document.\<close>

definition activeUserIds :: "server_state \<Rightarrow> document_id \<Rightarrow> user_id list" where
  "activeUserIds s documentId = map fst (fst (getDocumentUsers documentId (activeUsers s)))"

definition insert_op :: "int \<Rightarrow> string \<Rightarrow> int \<Rightarrow> operation" where
  "insert_op pos txt bv =
     \<lparr>optype = ''insert'', position = pos, optext = txt, oplength = 0, baseVersion = bv\<rparr>"

definition delete_op :: "int \<Rightarrow> int \<Rightarrow> int \<Rightarrow> operation" where
  "delete_op pos len bv =
     \<lparr>optype = ''delete'', position = pos, optext = [], oplength = len, baseVersion = bv\<rparr>"

text \<open>
  The starting point of a scenario: one document \<open>D\<close> at version 1 with the given content,
  owned by \<open>U1\<close> and shared with \<open>U2\<close> as editor, no buffer, nobody joined.
\<close>

definition scenario_document :: "string \<Rightarrow> document" where
  "scenario_document c =
     \<lparr>title = ''Untitled Document'', content = c, owner = ''U1'',
      sharedWith = [(''U2'', Editor)], version = 1, versionHistory = []\<rparr>"

definition scenario_state :: "string \<Rightarrow> server_state" where
  "scenario_state c =
     \<lparr>ot = \<lparr>documents = [''D'' \<mapsto> scenario_document c], operationBuffers = Map.empty\<rparr>,
      activeUsers = Map.empty, rooms = (\<lambda>r. {}), socketDocumentId = Map.empty\<rparr>"

definition socket_U1 :: socket where
  "socket_U1 = \<lparr>socket_ident = ''s1'', user_ident = ''U1'', username = ''alice''\<rparr>"

definition socket_U2 :: socket where
  "socket_U2 = \<lparr>socket_ident = ''s2'', user_ident = ''U2'', username = ''bob''\<rparr>"

text \<open>
  The state of scenario S3 once the delete of \<open>U1\<close> has been accepted: content \<open>AE\<close> at
  version 2, one snapshot, one buffer entry.
\<close>

definition S3_document :: document where
  "S3_document =
     \<lparr>title = ''Untitled Document'', content = ''AE'', owner = ''U1'',
      sharedWith = [(''U2'', Editor)], version = 2,
      versionHistory =
        [\<lparr>snapshot_version = 1, contentSnapshot = ''ABCDE'', editedBy = ''U1''\<rparr>]\<rparr>"

definition S3_state :: ot_state where
  "S3_state =
     \<lparr>documents = [''D'' \<mapsto> S3_document],
      operationBuffers = [''D'' \<mapsto> [\<lparr>entry_version = 2, entry_operation = delete_op 1 3 1\<rparr>]]\<rparr>"

text \<open>An operation of type noop as a client may send it.\<close>

definition noop_op :: "int \<Rightarrow> operation" where
  "noop_op bv = \<lparr>optype = ''noop'', position = 0, optext = [], oplength = 0, baseVersion = bv\<rparr>"

text \<open>The server state around \<open>S3_state\<close>, nobody joined.\<close>

definition S3_server_state :: server_state where
  "S3_server_state =
     \<lparr>ot = S3_state, activeUsers = Map.empty, rooms = (\<lambda>r. {}), socketDocumentId = Map.empty\<rparr>"

section \<open>Operations as objects: references and mutation\<close>

text \<open>
  In the source an operation is an object reached through a reference, and
  \<open>transformOperation\<close> assigns to fields. To say which objects a call writes, the
  function is modelled a second time over a store of objects: the store is a list, a
  reference is an index into it, \<^verbatim>\<open>{ ...op }\<close> puts a copy of the object at the end of the
  store and yields its index, and an assignment to a field updates the object at that
  index. Every read goes to the store as it is at that statement. A reference outside the
  store does not occur in the source; the model answers \<open>None\<close> to it.
\<close>

type_synonym ref = nat
type_synonym store = "operation list"

definition spread_copy :: "store \<Rightarrow> ref \<Rightarrow> ref \<times> store" where
  "spread_copy h r = (length h, h @ [h ! r])"

definition assign :: "store \<Rightarrow> ref \<Rightarrow> (operation \<Rightarrow> operation) \<Rightarrow> store" where
  "assign h r f = h[r := f (h ! r)]"

text \<open>The four \<^verbatim>\<open>if\<close> statements of \<open>transformOperation\<close>, each as a step on the store.\<close>

definition both_inserting :: "store \<Rightarrow> ref \<Rightarrow> ref \<Rightarrow> ref \<Rightarrow> store" where
  "both_inserting h transformed opA opB =
     (if optype (h ! opA) = ''insert'' \<and> optype (h ! opB) = ''insert'' then
        (if position (h ! opB) \<le> position (h ! opA)
         then assign h transformed
                (\<lambda>t. t\<lparr>position := position t + int (length (optext (h ! opB)))\<rparr>)
         else h)
      else h)"

definition inserting_deleting :: "store \<Rightarrow> ref \<Rightarrow> ref \<Rightarrow> ref \<Rightarrow> store" where
  "inserting_deleting h transformed opA opB =
     (if optype (h ! opA) = ''insert'' \<and> optype (h ! opB) = ''delete'' then
        (if position (h ! opB) < position (h ! opA)
         then assign h transformed
                (\<lambda>t. t\<lparr>position := position t
                         - min (oplength (h ! opB)) (position (h ! opA) - position (h ! opB))\<rparr>)
         else h)
      else h)"

definition deleting_inserting :: "store \<Rightarrow> ref \<Rightarrow> ref \<Rightarrow> ref \<Rightarrow> store" where
  "deleting_inserting h transformed opA opB =
     (if optype (h ! opA) = ''delete'' \<and> optype (h ! opB) = ''insert'' then
        (if position (h ! opB) \<le> position (h ! opA)
         then assign h transformed
                (\<lambda>t. t\<lparr>position := position t + int (length (optext (h ! opB)))\<rparr>)
         else h)
      else h)"

definition both_deleting :: "store \<Rightarrow> ref \<Rightarrow> ref \<Rightarrow> ref \<Rightarrow> store" where
  "both_deleting h transformed opA opB =
     (if optype (h ! opA) = ''delete'' \<and> optype (h ! opB) = ''delete'' then
        (if position (h ! opB) \<ge> position (h ! opA) + oplength (h ! opA) then h
         else if position (h ! opB) + oplength (h ! opB) \<le> position (h ! opA)
         then assign h transformed (\<lambda>t. t\<lparr>position := position t - oplength (h ! opB)\<rparr>)
         else
           (let overlapStart = max (position (h ! opA)) (position (h ! opB));
                overlapEnd = min (position (h ! opA) + oplength (h ! opA))
                                 (position (h ! opB) + oplength (h ! opB));
                overlapLength = max 0 (overlapEnd - overlapStart);
                h1 = assign h transformed (\<lambda>t. t\<lparr>oplength := oplength t - overlapLength\<rparr>);
                h2 = assign h1 transformed
                       (\<lambda>t. t\<lparr>position := min (position (h1 ! opA)) (position (h1 ! opB))\<rparr>)
            in if oplength (h2 ! transformed) \<le> 0
               then assign (assign h2 transformed (\<lambda>t. t\<lparr>oplength := 0\<rparr>)) transformed
                      (\<lambda>t. t\<lparr>optype := ''noop''\<rparr>)
               else h2))
      else h)"

definition transformOperation_ref :: "store \<Rightarrow> ref \<Rightarrow> ref \<Rightarrow> (ref \<times> store) option" where
  "transformOperation_ref h0 opA opB =
     (if opA < length h0 \<and> opB < length h0 then
        (let (transformed, h) = spread_copy h0 opA;
             h = both_inserting h transformed opA opB;
             h = inserting_deleting h transformed opA opB;
             h = deleting_inserting h transformed opA opB;
             h = both_deleting h transformed opA opB
         in Some (transformed, h))
      else None)"

text \<open>
  The transform step of \<open>processOperation\<close> over the store: the buffer holds pairs of a
  version and a reference to the operation object the server accepted.
\<close>

fun transformMissed_ref :: "store \<Rightarrow> ref \<Rightarrow> (int \<times> ref) list \<Rightarrow> (ref \<times> store) option" where
  "transformMissed_ref h transformedRef [] = Some (transformedRef, h)"
| "transformMissed_ref h transformedRef (entry # missedOps) =
     (case transformOperation_ref h transformedRef (snd entry) of
        None \<Rightarrow> None
      | Some (t, h') \<Rightarrow>
          if optype (h' ! t) = ''noop'' then Some (t, h')
          else transformMissed_ref h' t missedOps)"

definition transformStep_ref ::
  "store \<Rightarrow> int \<Rightarrow> (int \<times> ref) list \<Rightarrow> ref \<Rightarrow> (ref \<times> store) option" where
  "transformStep_ref h0 docVersion buffer operation =
     (if operation < length h0 then
        (let (transformedRef, h) = spread_copy h0 operation
         in if baseVersion (h ! operation) < docVersion then
              transformMissed_ref h transformedRef
                (filter (\<lambda>entry. fst entry > baseVersion (h ! operation)) buffer)
            else Some (transformedRef, h))
      else None)"

text \<open>The buffer entry that a pair of version and reference stands for in a store.\<close>

definition entry_in :: "store \<Rightarrow> int \<times> ref \<Rightarrow> buffer_entry" where
  "entry_in h e = \<lparr>entry_version = fst e, entry_operation = h ! snd e\<rparr>"

section \<open>Transform identity\<close>

text \<open>
  C8. Transforming any operation against an operation of type noop gives the operation
  back, with every field as it was.
\<close>

theorem transform_noop_identity:
  "optype opB = ''noop'' \<Longrightarrow> transformOperation opA opB = opA"
  by (simp add: transformOperation_def)

theorem transform_noop_identity_witness:
  "optype \<lparr>optype = ''noop'', position = 1, optext = [], oplength = 0, baseVersion = 1\<rparr> = ''noop''
   \<and> transformOperation
        \<lparr>optype = ''delete'', position = 2, optext = [], oplength = 2, baseVersion = 1\<rparr>
        \<lparr>optype = ''noop'', position = 1, optext = [], oplength = 0, baseVersion = 1\<rparr>
      = \<lparr>optype = ''delete'', position = 2, optext = [], oplength = 2, baseVersion = 1\<rparr>"
  using transform_noop_identity
          [of "\<lparr>optype = ''noop'', position = 1, optext = [], oplength = 0, baseVersion = 1\<rparr>"
              "\<lparr>optype = ''delete'', position = 2, optext = [], oplength = 2, baseVersion = 1\<rparr>"]
  by simp


section \<open>Facts used throughout\<close>

lemmas scenario_defs = scenario_state_def scenario_document_def socket_U1_def socket_U2_def
  insert_op_def delete_op_def S3_state_def S3_document_def

lemmas ot_defs = processOperation_def getBuffer_def transformStep_def transformOperation_def
  applyOperation_def js_slice_def js_slice_from_def pushVersionSnapshot_def
  MAX_BUFFER_SIZE_def MAX_HISTORY_SIZE_def

lemmas handler_defs = on_operation_def canEdit_def getUserRole_def EDIT_ROLES_def roomName_def

lemma bufferOf_after_getBuffer:
  "fst (getBuffer d' (snd (getBuffer d bufs))) = fst (getBuffer d' bufs)"
  by (simp add: getBuffer_def split: option.splits)

lemma bufferOf_after_update:
  "fst (getBuffer d' (bufs(d \<mapsto> b))) = (if d' = d then b else fst (getBuffer d' bufs))"
  by (simp add: getBuffer_def split: option.splits)

text \<open>The two ways out of \<open>processOperation\<close> for a document that exists.\<close>

lemma processOperation_noop:
  assumes "documents st d = Some doc"
      and "optype (transformStep doc (bufferOf st d) operation) = ''noop''"
  shows "processOperation st d operation u =
           Inr (\<lparr>res_document = doc,
                  transformedOp = transformStep doc (bufferOf st d) operation,
                  newVersion = version doc\<rparr>,
                st\<lparr>operationBuffers := snd (getBuffer d (operationBuffers st))\<rparr>)"
  using assms by (simp add: processOperation_def bufferOf_def case_prod_beta)

lemma processOperation_accept:
  assumes "documents st d = Some doc"
      and "optype (transformStep doc (bufferOf st d) operation) \<noteq> ''noop''"
  shows "processOperation st d operation u =
          (let top = transformStep doc (bufferOf st d) operation;
               doc3 = (pushVersionSnapshot u doc)
                        \<lparr>content := applyOperation (content doc) top, version := version doc + 1\<rparr>;
               pushed = bufferOf st d @ [\<lparr>entry_version = version doc + 1, entry_operation = top\<rparr>]
           in Inr (\<lparr>res_document = doc3, transformedOp = top, newVersion = version doc + 1\<rparr>,
                   \<lparr>documents = (documents st)(d \<mapsto> doc3),
                    operationBuffers = (snd (getBuffer d (operationBuffers st)))(d \<mapsto>
                      (if length pushed > MAX_BUFFER_SIZE
                       then drop (length pushed - MAX_BUFFER_SIZE) pushed else pushed))\<rparr>))"
  using assms
  by (simp add: processOperation_def bufferOf_def case_prod_beta Let_def pushVersionSnapshot_def)

text \<open>What the handler sends once the shape tests pass and \<open>processOperation\<close> returns.\<close>

lemma on_operation_valid:
  assumes "documents (ot s) d = Some doc"
      and "canEdit doc (user_ident sock)"
      and "optype operation \<noteq> []"
      and "optype operation = ''insert'' \<longrightarrow> optext operation \<noteq> []"
      and "optype operation = ''delete'' \<longrightarrow> oplength operation \<noteq> 0"
      and "processOperation (ot s) d operation (user_ident sock) = Inr (r, st')"
  shows "on_operation s sock d (Some operation) =
           ([Emit (socket_ident sock)
               (Operation_ack (transformedOp r) (newVersion r) (user_ident sock)),
             EmitToOthers (roomName d) (socket_ident sock)
               (Remote_operation (transformedOp r) (newVersion r) (user_ident sock) (username sock)),
             PublishOperation d
               (Remote_operation (transformedOp r) (newVersion r) (user_ident sock) (username sock))],
            s\<lparr>ot := st'\<rparr>)"
  using assms by (simp add: on_operation_def Let_def)

lemma transformStep_future:
  "baseVersion operation > version doc \<Longrightarrow> transformStep doc buf operation = operation"
  by (simp add: transformStep_def)

lemma trim_is_drop:
  "(if length pushed > MAX_BUFFER_SIZE then drop (length pushed - MAX_BUFFER_SIZE) pushed
    else pushed) = drop (length pushed - 200) pushed"
  by (simp add: MAX_BUFFER_SIZE_def)

lemma versions_increasing_empty: "versions_increasing v []"
  by (simp add: versions_increasing_def)

lemma versions_increasing_push:
  assumes "versions_increasing v buf"
  shows "versions_increasing (v + 1) (buf @ [\<lparr>entry_version = v + 1, entry_operation = t\<rparr>])"
  using assms by (auto simp add: versions_increasing_def sorted_wrt_append list_all_iff)

lemma versions_increasing_drop:
  assumes "versions_increasing v buf"
  shows "versions_increasing v (drop n buf)"
  using assms
  by (auto simp add: versions_increasing_def list_all_iff sorted_wrt_drop drop_map [symmetric]
        dest: in_set_dropD)

section \<open>Rejection of a base version ahead of the document\<close>

text \<open>
  C1 says that an operation whose \<open>baseVersion\<close> is greater than the version of the document
  is rejected and changes nothing. The source has no such test: the only comparison is
  \<open>baseVersion < version\<close>, which decides whether the operation is transformed. At
  content \<open>AB\<close>, version 1, the insert of \<open>X\<close> at 0 with \<open>baseVersion\<close> 5 is applied, stored
  in the buffer and acknowledged with version 2.
\<close>

theorem future_baseVersion_counterexample:
  "version (scenario_document ''AB'') < baseVersion (insert_op 0 ''X'' 5) \<and>
   (case processOperation (ot (scenario_state ''AB'')) ''D'' (insert_op 0 ''X'' 5) ''U1'' of
      Inl e \<Rightarrow> False
    | Inr (r, st') \<Rightarrow>
        transformedOp r = insert_op 0 ''X'' 5 \<and> newVersion r = 2 \<and>
        map_option content (documents st' ''D'') = Some ''XAB'' \<and>
        map_option version (documents st' ''D'') = Some 2 \<and>
        operationBuffers st' ''D'' =
          Some [\<lparr>entry_version = 2, entry_operation = insert_op 0 ''X'' 5\<rparr>]) \<and>
   fst (on_operation (scenario_state ''AB'') socket_U1 ''D'' (Some (insert_op 0 ''X'' 5))) ! 0
     = Emit ''s1'' (Operation_ack (insert_op 0 ''X'' 5) 2 ''U1'')"
  by (simp add: ot_defs handler_defs scenario_defs Let_def)

text \<open>
  C1 as amended: when the document exists and \<open>baseVersion\<close> is greater than its version,
  the call is not rejected: it returns, and the operation it returns is the operation as
  it came, without any transform. If the type of the operation is noop, the version
  returned is the current one and neither the documents nor the entries of any buffer
  change. Otherwise the operation is applied to the content, the version grows by 1, the
  pair of the new version and the operation is appended to the buffer (cut to the last
  200), and the new version is returned. When the operation comes through the handler
  from a user who can edit and it passes the shape tests, the handler emits
  \<open>operation_ack\<close> with the operation and the version returned, then \<open>remote_operation\<close>
  to the others in the room and to Redis.
\<close>

theorem future_baseVersion_applied_untransformed:
  assumes "documents st d = Some doc" and "baseVersion operation > version doc"
  shows "\<exists>r st'. processOperation st d operation u = Inr (r, st') \<and>
           transformedOp r = operation \<and>
           (optype operation = ''noop'' \<longrightarrow>
              newVersion r = version doc \<and> documents st' = documents st \<and>
              (\<forall>d'. bufferOf st' d' = bufferOf st d')) \<and>
           (optype operation \<noteq> ''noop'' \<longrightarrow>
              (\<exists>doc'. newVersion r = version doc + 1 \<and>
                 documents st' d = Some doc' \<and>
                 content doc' = applyOperation (content doc) operation \<and>
                 version doc' = version doc + 1 \<and>
                 bufferOf st' d =
                   (let pushed = bufferOf st d @
                          [\<lparr>entry_version = version doc + 1, entry_operation = operation\<rparr>]
                    in drop (length pushed - 200) pushed))) \<and>
           (\<forall>s sock. ot s = st \<and> user_ident sock = u \<and> canEdit doc u \<and>
                optype operation \<noteq> [] \<and>
                (optype operation = ''insert'' \<longrightarrow> optext operation \<noteq> []) \<and>
                (optype operation = ''delete'' \<longrightarrow> oplength operation \<noteq> 0) \<longrightarrow>
              on_operation s sock d (Some operation) =
                ([Emit (socket_ident sock) (Operation_ack operation (newVersion r) u),
                  EmitToOthers (roomName d) (socket_ident sock)
                    (Remote_operation operation (newVersion r) u (username sock)),
                  PublishOperation d
                    (Remote_operation operation (newVersion r) u (username sock))],
                 s\<lparr>ot := st'\<rparr>))"
proof -
  have ts: "transformStep doc (bufferOf st d) operation = operation"
    by (rule transformStep_future [OF assms(2)])
  show ?thesis
  proof (cases "optype operation = ''noop''")
    case True
    then have nn: "optype (transformStep doc (bufferOf st d) operation) = ''noop''"
      unfolding ts .
    let ?r = "\<lparr>res_document = doc, transformedOp = operation, newVersion = version doc\<rparr>"
    let ?st = "st\<lparr>operationBuffers := snd (getBuffer d (operationBuffers st))\<rparr>"
    have p: "processOperation st d operation u = Inr (?r, ?st)"
      using processOperation_noop [OF assms(1) nn, of u] unfolding ts .
    have h: "\<forall>s sock. ot s = st \<and> user_ident sock = u \<and> canEdit doc u \<and>
                optype operation \<noteq> [] \<and>
                (optype operation = ''insert'' \<longrightarrow> optext operation \<noteq> []) \<and>
                (optype operation = ''delete'' \<longrightarrow> oplength operation \<noteq> 0) \<longrightarrow>
              on_operation s sock d (Some operation) =
                ([Emit (socket_ident sock) (Operation_ack operation (newVersion ?r) u),
                  EmitToOthers (roomName d) (socket_ident sock)
                    (Remote_operation operation (newVersion ?r) u (username sock)),
                  PublishOperation d
                    (Remote_operation operation (newVersion ?r) u (username sock))],
                 s\<lparr>ot := ?st\<rparr>)"
    proof (intro allI impI)
      fix s :: server_state and sock :: socket
      assume a: "ot s = st \<and> user_ident sock = u \<and> canEdit doc u \<and>
                optype operation \<noteq> [] \<and>
                (optype operation = ''insert'' \<longrightarrow> optext operation \<noteq> []) \<and>
                (optype operation = ''delete'' \<longrightarrow> oplength operation \<noteq> 0)"
      from a assms(1) have 1: "documents (ot s) d = Some doc" by simp
      from a have 2: "canEdit doc (user_ident sock)" by simp
      from a p have 6: "processOperation (ot s) d operation (user_ident sock) = Inr (?r, ?st)"
        by simp
      from on_operation_valid [OF 1 2 _ _ _ 6] a
      show "on_operation s sock d (Some operation) =
                ([Emit (socket_ident sock) (Operation_ack operation (newVersion ?r) u),
                  EmitToOthers (roomName d) (socket_ident sock)
                    (Remote_operation operation (newVersion ?r) u (username sock)),
                  PublishOperation d
                    (Remote_operation operation (newVersion ?r) u (username sock))],
                 s\<lparr>ot := ?st\<rparr>)"
        by simp
    qed
    have b: "\<forall>d'. bufferOf ?st d' = bufferOf st d'"
      by (simp add: bufferOf_def bufferOf_after_getBuffer)
    from p True h b show ?thesis by simp
  next
    case False
    then have nn: "optype (transformStep doc (bufferOf st d) operation) \<noteq> ''noop''"
      unfolding ts .
    let ?doc = "(pushVersionSnapshot u doc)
                  \<lparr>content := applyOperation (content doc) operation, version := version doc + 1\<rparr>"
    let ?pushed = "bufferOf st d @ [\<lparr>entry_version = version doc + 1, entry_operation = operation\<rparr>]"
    let ?r = "\<lparr>res_document = ?doc, transformedOp = operation, newVersion = version doc + 1\<rparr>"
    let ?st = "\<lparr>documents = (documents st)(d \<mapsto> ?doc),
                operationBuffers = (snd (getBuffer d (operationBuffers st)))(d \<mapsto>
                   drop (length ?pushed - 200) ?pushed)\<rparr>"
    have p: "processOperation st d operation u = Inr (?r, ?st)"
      using processOperation_accept [OF assms(1) nn, of u]
      unfolding ts Let_def trim_is_drop .
    have h: "\<forall>s sock. ot s = st \<and> user_ident sock = u \<and> canEdit doc u \<and>
                optype operation \<noteq> [] \<and>
                (optype operation = ''insert'' \<longrightarrow> optext operation \<noteq> []) \<and>
                (optype operation = ''delete'' \<longrightarrow> oplength operation \<noteq> 0) \<longrightarrow>
              on_operation s sock d (Some operation) =
                ([Emit (socket_ident sock) (Operation_ack operation (newVersion ?r) u),
                  EmitToOthers (roomName d) (socket_ident sock)
                    (Remote_operation operation (newVersion ?r) u (username sock)),
                  PublishOperation d
                    (Remote_operation operation (newVersion ?r) u (username sock))],
                 s\<lparr>ot := ?st\<rparr>)"
    proof (intro allI impI)
      fix s :: server_state and sock :: socket
      assume a: "ot s = st \<and> user_ident sock = u \<and> canEdit doc u \<and>
                optype operation \<noteq> [] \<and>
                (optype operation = ''insert'' \<longrightarrow> optext operation \<noteq> []) \<and>
                (optype operation = ''delete'' \<longrightarrow> oplength operation \<noteq> 0)"
      from a assms(1) have 1: "documents (ot s) d = Some doc" by simp
      from a have 2: "canEdit doc (user_ident sock)" by simp
      from a p have 6: "processOperation (ot s) d operation (user_ident sock) = Inr (?r, ?st)"
        by simp
      from on_operation_valid [OF 1 2 _ _ _ 6] a
      show "on_operation s sock d (Some operation) =
                ([Emit (socket_ident sock) (Operation_ack operation (newVersion ?r) u),
                  EmitToOthers (roomName d) (socket_ident sock)
                    (Remote_operation operation (newVersion ?r) u (username sock)),
                  PublishOperation d
                    (Remote_operation operation (newVersion ?r) u (username sock))],
                 s\<lparr>ot := ?st\<rparr>)"
        by simp
    qed
    have c: "newVersion ?r = version doc + 1 \<and> documents ?st d = Some ?doc \<and>
             content ?doc = applyOperation (content doc) operation \<and>
             version ?doc = version doc + 1 \<and>
             bufferOf ?st d = drop (length ?pushed - 200) ?pushed"
      by (simp add: bufferOf_def bufferOf_after_update del: length_drop drop_append)
    from False c have n: "optype operation \<noteq> ''noop'' \<longrightarrow>
              (\<exists>doc'. newVersion ?r = version doc + 1 \<and>
                 documents ?st d = Some doc' \<and>
                 content doc' = applyOperation (content doc) operation \<and>
                 version doc' = version doc + 1 \<and>
                 bufferOf ?st d =
                   (let pushed = bufferOf st d @
                          [\<lparr>entry_version = version doc + 1, entry_operation = operation\<rparr>]
                    in drop (length pushed - 200) pushed))"
      unfolding Let_def by blast
    have t: "transformedOp ?r = operation" by simp
    from p t False n h show ?thesis by blast
  qed
qed

theorem future_baseVersion_applied_untransformed_witness:
  "documents (ot (scenario_state ''AB'')) ''D'' = Some (scenario_document ''AB'') \<and>
   baseVersion (insert_op 0 ''X'' 5) > version (scenario_document ''AB'') \<and>
   baseVersion (noop_op 5) > version (scenario_document ''AB'') \<and>
   canEdit (scenario_document ''AB'') ''U1'' \<and>
   (\<exists>r st' doc'.
      processOperation (ot (scenario_state ''AB'')) ''D'' (insert_op 0 ''X'' 5) ''U1'' = Inr (r, st') \<and>
      transformedOp r = insert_op 0 ''X'' 5 \<and> newVersion r = 2 \<and>
      documents st' ''D'' = Some doc' \<and> content doc' = ''XAB'' \<and> version doc' = 2 \<and>
      on_operation (scenario_state ''AB'') socket_U1 ''D'' (Some (insert_op 0 ''X'' 5)) =
        ([Emit ''s1'' (Operation_ack (insert_op 0 ''X'' 5) 2 ''U1''),
          EmitToOthers ''doc:D'' ''s1'' (Remote_operation (insert_op 0 ''X'' 5) 2 ''U1'' ''alice''),
          PublishOperation ''D'' (Remote_operation (insert_op 0 ''X'' 5) 2 ''U1'' ''alice'')],
         (scenario_state ''AB'')\<lparr>ot := st'\<rparr>)) \<and>
   (\<exists>r st'.
      processOperation (ot (scenario_state ''AB'')) ''D'' (noop_op 5) ''U1'' = Inr (r, st') \<and>
      transformedOp r = noop_op 5 \<and> newVersion r = 1 \<and>
      documents st' = documents (ot (scenario_state ''AB'')) \<and>
      on_operation (scenario_state ''AB'') socket_U1 ''D'' (Some (noop_op 5)) =
        ([Emit ''s1'' (Operation_ack (noop_op 5) 1 ''U1''),
          EmitToOthers ''doc:D'' ''s1'' (Remote_operation (noop_op 5) 1 ''U1'' ''alice''),
          PublishOperation ''D'' (Remote_operation (noop_op 5) 1 ''U1'' ''alice'')],
         (scenario_state ''AB'')\<lparr>ot := st'\<rparr>))"
proof -
  let ?s = "scenario_state ''AB''" and ?doc = "scenario_document ''AB''"
  let ?op = "insert_op 0 ''X'' 5" and ?no = "noop_op 5"
  have 1: "documents (ot ?s) ''D'' = Some ?doc" by (simp add: scenario_defs)
  have 2: "baseVersion ?op > version ?doc" by (simp add: scenario_defs)
  have 3: "baseVersion ?no > version ?doc" by (simp add: scenario_defs noop_op_def)
  have 4: "canEdit ?doc ''U1''"
    by (simp add: scenario_defs canEdit_def getUserRole_def EDIT_ROLES_def)
  have a: "applyOperation (content ?doc) ?op = ''XAB''"
    by (simp add: scenario_defs applyOperation_def js_slice_def js_slice_from_def)
  have v: "version ?doc = 1" by (simp add: scenario_defs)
  have u: "socket_ident socket_U1 = ''s1''" "user_ident socket_U1 = ''U1''"
    "username socket_U1 = ''alice''" "roomName ''D'' = ''doc:D''"
    by (simp_all add: socket_U1_def roomName_def)
  have ti: "optype ?op \<noteq> ''noop''" "optype ?op \<noteq> []"
    "optype ?op = ''insert'' \<longrightarrow> optext ?op \<noteq> []"
    "optype ?op = ''delete'' \<longrightarrow> oplength ?op \<noteq> 0"
    by (simp_all add: insert_op_def)
  have tn: "optype ?no = ''noop''" "optype ?no \<noteq> []"
    "optype ?no = ''insert'' \<longrightarrow> optext ?no \<noteq> []"
    "optype ?no = ''delete'' \<longrightarrow> oplength ?no \<noteq> 0"
    by (simp_all add: noop_op_def)
  from future_baseVersion_applied_untransformed [OF 1 2, of "''U1''"]
  obtain r st' where p: "processOperation (ot ?s) ''D'' ?op ''U1'' = Inr (r, st')"
    and t: "transformedOp r = ?op"
    and acc: "optype ?op \<noteq> ''noop'' \<longrightarrow>
              (\<exists>doc'. newVersion r = version ?doc + 1 \<and>
                 documents st' ''D'' = Some doc' \<and>
                 content doc' = applyOperation (content ?doc) ?op \<and>
                 version doc' = version ?doc + 1 \<and>
                 bufferOf st' ''D'' =
                   (let pushed = bufferOf (ot ?s) ''D'' @
                          [\<lparr>entry_version = version ?doc + 1, entry_operation = ?op\<rparr>]
                    in drop (length pushed - 200) pushed))"
    and ack: "\<forall>s sock. ot s = ot ?s \<and> user_ident sock = ''U1'' \<and> canEdit ?doc ''U1'' \<and>
                optype ?op \<noteq> [] \<and>
                (optype ?op = ''insert'' \<longrightarrow> optext ?op \<noteq> []) \<and>
                (optype ?op = ''delete'' \<longrightarrow> oplength ?op \<noteq> 0) \<longrightarrow>
              on_operation s sock ''D'' (Some ?op) =
                ([Emit (socket_ident sock) (Operation_ack ?op (newVersion r) ''U1''),
                  EmitToOthers (roomName ''D'') (socket_ident sock)
                    (Remote_operation ?op (newVersion r) ''U1'' (username sock)),
                  PublishOperation ''D''
                    (Remote_operation ?op (newVersion r) ''U1'' (username sock))],
                 s\<lparr>ot := st'\<rparr>)"
    by blast
  from acc ti(1) obtain doc' where nv: "newVersion r = version ?doc + 1"
    and d': "documents st' ''D'' = Some doc'"
    and c': "content doc' = applyOperation (content ?doc) ?op"
    and v': "version doc' = version ?doc + 1"
    by blast
  from ack [rule_format, of ?s socket_U1] 4 ti u
  have e: "on_operation ?s socket_U1 ''D'' (Some ?op) =
        ([Emit ''s1'' (Operation_ack ?op (newVersion r) ''U1''),
          EmitToOthers ''doc:D'' ''s1'' (Remote_operation ?op (newVersion r) ''U1'' ''alice''),
          PublishOperation ''D'' (Remote_operation ?op (newVersion r) ''U1'' ''alice'')],
         ?s\<lparr>ot := st'\<rparr>)"
    by simp
  have first: "\<exists>r st' doc'.
      processOperation (ot ?s) ''D'' ?op ''U1'' = Inr (r, st') \<and>
      transformedOp r = ?op \<and> newVersion r = 2 \<and>
      documents st' ''D'' = Some doc' \<and> content doc' = ''XAB'' \<and> version doc' = 2 \<and>
      on_operation ?s socket_U1 ''D'' (Some ?op) =
        ([Emit ''s1'' (Operation_ack ?op 2 ''U1''),
          EmitToOthers ''doc:D'' ''s1'' (Remote_operation ?op 2 ''U1'' ''alice''),
          PublishOperation ''D'' (Remote_operation ?op 2 ''U1'' ''alice'')],
         ?s\<lparr>ot := st'\<rparr>)"
    using p t nv d' c' v' e unfolding a v by auto
  from future_baseVersion_applied_untransformed [OF 1 3, of "''U1''"]
  obtain r2 st2 where p2: "processOperation (ot ?s) ''D'' ?no ''U1'' = Inr (r2, st2)"
    and t2: "transformedOp r2 = ?no"
    and same: "optype ?no = ''noop'' \<longrightarrow>
              newVersion r2 = version ?doc \<and> documents st2 = documents (ot ?s) \<and>
              (\<forall>d'. bufferOf st2 d' = bufferOf (ot ?s) d')"
    and ack2: "\<forall>s sock. ot s = ot ?s \<and> user_ident sock = ''U1'' \<and> canEdit ?doc ''U1'' \<and>
                optype ?no \<noteq> [] \<and>
                (optype ?no = ''insert'' \<longrightarrow> optext ?no \<noteq> []) \<and>
                (optype ?no = ''delete'' \<longrightarrow> oplength ?no \<noteq> 0) \<longrightarrow>
              on_operation s sock ''D'' (Some ?no) =
                ([Emit (socket_ident sock) (Operation_ack ?no (newVersion r2) ''U1''),
                  EmitToOthers (roomName ''D'') (socket_ident sock)
                    (Remote_operation ?no (newVersion r2) ''U1'' (username sock)),
                  PublishOperation ''D''
                    (Remote_operation ?no (newVersion r2) ''U1'' (username sock))],
                 s\<lparr>ot := st2\<rparr>)"
    by blast
  from same tn(1) have nv2: "newVersion r2 = version ?doc"
    and ds: "documents st2 = documents (ot ?s)" by simp_all
  from ack2 [rule_format, of ?s socket_U1] 4 tn u
  have e2: "on_operation ?s socket_U1 ''D'' (Some ?no) =
        ([Emit ''s1'' (Operation_ack ?no (newVersion r2) ''U1''),
          EmitToOthers ''doc:D'' ''s1'' (Remote_operation ?no (newVersion r2) ''U1'' ''alice''),
          PublishOperation ''D'' (Remote_operation ?no (newVersion r2) ''U1'' ''alice'')],
         ?s\<lparr>ot := st2\<rparr>)"
    by simp
  have second: "\<exists>r st'.
      processOperation (ot ?s) ''D'' ?no ''U1'' = Inr (r, st') \<and>
      transformedOp r = ?no \<and> newVersion r = 1 \<and>
      documents st' = documents (ot ?s) \<and>
      on_operation ?s socket_U1 ''D'' (Some ?no) =
        ([Emit ''s1'' (Operation_ack ?no 1 ''U1''),
          EmitToOthers ''doc:D'' ''s1'' (Remote_operation ?no 1 ''U1'' ''alice''),
          PublishOperation ''D'' (Remote_operation ?no 1 ''U1'' ''alice'')],
         ?s\<lparr>ot := st'\<rparr>)"
    using p2 t2 nv2 ds e2 unfolding v by auto
  from 1 2 3 4 first second show ?thesis by blast
qed

section \<open>Insert against delete\<close>

text \<open>
  C2. For an insert \<open>a\<close> and a delete \<open>b\<close> with \<open>b.length \<ge> 1\<close>, \<open>transformOperation\<close>
  returns \<open>a\<close> with the position that the table of the specification gives, and every
  other field as it was: the formula of the source,
  \<open>position -= min(b.length, a.position - b.position)\<close> under \<open>b.position < a.position\<close>,
  agrees with the three cases of the table.
\<close>

theorem insert_against_delete_follows_table:
  assumes "optype a = ''insert''" and "optype b = ''delete''" and "oplength b \<ge> 1"
  shows "transformOperation a b = a\<lparr>position := spec_insert_delete_position a b\<rparr>"
  using assms
  by (auto simp add: transformOperation_def spec_insert_delete_position_def min_def)

theorem insert_against_delete_follows_table_witness:
  "optype (insert_op 3 ''X'' 1) = ''insert'' \<and> optype (delete_op 1 3 1) = ''delete'' \<and>
   oplength (delete_op 1 3 1) \<ge> 1 \<and>
   spec_insert_delete_position (insert_op 3 ''X'' 1) (delete_op 1 3 1) = 1 \<and>
   transformOperation (insert_op 3 ''X'' 1) (delete_op 1 3 1) = insert_op 1 ''X'' 1"
  using insert_against_delete_follows_table [of "insert_op 3 ''X'' 1" "delete_op 1 3 1"]
  by (simp add: insert_op_def delete_op_def spec_insert_delete_position_def)

section \<open>Concurrent inserts at the same position\<close>

text \<open>
  C3. Scenario S1: from content \<open>AC\<close> at version 1, the insert of \<open>B\<close> at 1 is accepted
  (content \<open>ABC\<close>, version 2); the insert of \<open>X\<close> at 1 with base version 1 is then
  transformed to position 2 and gives \<open>ABXC\<close> at version 3. In general an insert is
  shifted right by the length of the text of an insert \<open>b\<close> whenever
  \<open>b.position \<le> a.position\<close>, equality included.
\<close>

theorem concurrent_inserts_tie_break:
  "(case processOperation (ot (scenario_state ''AC'')) ''D'' (insert_op 1 ''B'' 1) ''U1'' of
      Inl e \<Rightarrow> False
    | Inr (r1, st1) \<Rightarrow>
        map_option content (documents st1 ''D'') = Some ''ABC'' \<and>
        map_option version (documents st1 ''D'') = Some 2 \<and>
        (case processOperation st1 ''D'' (insert_op 1 ''X'' 1) ''U2'' of
           Inl e \<Rightarrow> False
         | Inr (r2, st2) \<Rightarrow>
             transformedOp r2 = insert_op 2 ''X'' 1 \<and> newVersion r2 = 3 \<and>
             map_option content (documents st2 ''D'') = Some ''ABXC'' \<and>
             map_option version (documents st2 ''D'') = Some 3))
   \<and> (\<forall>a b. optype a = ''insert'' \<and> optype b = ''insert'' \<and> position b \<le> position a \<longrightarrow>
          transformOperation a b = a\<lparr>position := position a + int (length (optext b))\<rparr>)"
proof
  show "case processOperation (ot (scenario_state ''AC'')) ''D'' (insert_op 1 ''B'' 1) ''U1'' of
      Inl e \<Rightarrow> False
    | Inr (r1, st1) \<Rightarrow>
        map_option content (documents st1 ''D'') = Some ''ABC'' \<and>
        map_option version (documents st1 ''D'') = Some 2 \<and>
        (case processOperation st1 ''D'' (insert_op 1 ''X'' 1) ''U2'' of
           Inl e \<Rightarrow> False
         | Inr (r2, st2) \<Rightarrow>
             transformedOp r2 = insert_op 2 ''X'' 1 \<and> newVersion r2 = 3 \<and>
             map_option content (documents st2 ''D'') = Some ''ABXC'' \<and>
             map_option version (documents st2 ''D'') = Some 3)"
    by (simp add: ot_defs scenario_defs Let_def)
next
  show "\<forall>a b. optype a = ''insert'' \<and> optype b = ''insert'' \<and> position b \<le> position a \<longrightarrow>
          transformOperation a b = a\<lparr>position := position a + int (length (optext b))\<rparr>"
    by (simp add: transformOperation_def)
qed

theorem concurrent_inserts_tie_break_witness:
  "optype (insert_op 1 ''X'' 1) = ''insert'' \<and> optype (insert_op 1 ''B'' 1) = ''insert'' \<and>
   position (insert_op 1 ''B'' 1) \<le> position (insert_op 1 ''X'' 1) \<and>
   transformOperation (insert_op 1 ''X'' 1) (insert_op 1 ''B'' 1) = insert_op 2 ''X'' 1"
  using concurrent_inserts_tie_break
          [THEN conjunct2, rule_format, of "insert_op 1 ''X'' 1" "insert_op 1 ''B'' 1"]
  by (simp add: insert_op_def)

section \<open>Overlapping deletes\<close>

text \<open>
  C4. A delete of length at least 1 whose range lies inside the range of a concurrent
  delete \<open>b\<close> is transformed against \<open>b\<close> to a noop of length 0 (at the position of \<open>b\<close>).
  Whenever the transform step turns a delete that passed the handler's tests into a
  noop, the handler acknowledges it to the originator with the noop operation and the
  current version, and the documents and the entries of every buffer stay as they were.
  Scenario S3 through the handler: from content \<open>ABCDE\<close> at version 1 the delete of 3 at
  position 1 is accepted (content \<open>AE\<close>, version 2); the delete of 2 at position 2 with
  base version 1 becomes a noop of length 0, the document keeps content \<open>AE\<close> and
  version 2, and the acknowledgement carries the noop and version 2.
\<close>

theorem overlapping_delete_collapses_to_noop:
  "(\<forall>a b. optype a = ''delete'' \<and> optype b = ''delete'' \<and> 1 \<le> oplength a \<and>
          position b \<le> position a \<and>
          position a + oplength a \<le> position b + oplength b \<longrightarrow>
        transformOperation a b = a\<lparr>position := position b, oplength := 0, optype := ''noop''\<rparr>)
   \<and> (\<forall>s sock d doc operation.
        documents (ot s) d = Some doc \<and> canEdit doc (user_ident sock) \<and>
        optype operation = ''delete'' \<and> oplength operation \<noteq> 0 \<and>
        optype (transformStep doc (bufferOf (ot s) d) operation) = ''noop'' \<longrightarrow>
        (\<exists>s'. on_operation s sock d (Some operation) =
           ([Emit (socket_ident sock)
               (Operation_ack (transformStep doc (bufferOf (ot s) d) operation)
                  (version doc) (user_ident sock)),
             EmitToOthers (roomName d) (socket_ident sock)
               (Remote_operation (transformStep doc (bufferOf (ot s) d) operation)
                  (version doc) (user_ident sock) (username sock)),
             PublishOperation d
               (Remote_operation (transformStep doc (bufferOf (ot s) d) operation)
                  (version doc) (user_ident sock) (username sock))],
            s') \<and>
           documents (ot s') = documents (ot s) \<and>
           (\<forall>d'. bufferOf (ot s') d' = bufferOf (ot s) d')))
   \<and> transformOperation (delete_op 2 2 1) (delete_op 1 3 1)
       = \<lparr>optype = ''noop'', position = 1, optext = [], oplength = 0, baseVersion = 1\<rparr>
   \<and> (case on_operation (scenario_state ''ABCDE'') socket_U1 ''D'' (Some (delete_op 1 3 1)) of
        (effects1, s1) \<Rightarrow>
          map_option content (documents (ot s1) ''D'') = Some ''AE'' \<and>
          map_option version (documents (ot s1) ''D'') = Some 2 \<and>
          (case on_operation s1 socket_U2 ''D'' (Some (delete_op 2 2 1)) of
             (effects2, s2) \<Rightarrow>
               effects2 ! 0 = Emit ''s2'' (Operation_ack
                   \<lparr>optype = ''noop'', position = 1, optext = [], oplength = 0, baseVersion = 1\<rparr>
                   2 ''U2'') \<and>
               map_option content (documents (ot s2) ''D'') = Some ''AE'' \<and>
               map_option version (documents (ot s2) ''D'') = Some 2 \<and>
               documents (ot s2) ''D'' = documents (ot s1) ''D'' \<and>
               operationBuffers (ot s2) ''D'' = operationBuffers (ot s1) ''D''))"
proof (intro conjI allI impI)
  fix a b :: operation
  assume "optype a = ''delete'' \<and> optype b = ''delete'' \<and> 1 \<le> oplength a \<and>
          position b \<le> position a \<and>
          position a + oplength a \<le> position b + oplength b"
  then show "transformOperation a b
               = a\<lparr>position := position b, oplength := 0, optype := ''noop''\<rparr>"
    by (simp add: transformOperation_def Let_def max_def min_def)
next
  fix s :: server_state and sock :: socket and d :: document_id
    and doc :: document and operation :: operation
  assume h: "documents (ot s) d = Some doc \<and> canEdit doc (user_ident sock) \<and>
        optype operation = ''delete'' \<and> oplength operation \<noteq> 0 \<and>
        optype (transformStep doc (bufferOf (ot s) d) operation) = ''noop''"
  let ?top = "transformStep doc (bufferOf (ot s) d) operation"
  let ?r = "\<lparr>res_document = doc, transformedOp = ?top, newVersion = version doc\<rparr>"
  let ?st = "(ot s)\<lparr>operationBuffers := snd (getBuffer d (operationBuffers (ot s)))\<rparr>"
  from h have 1: "documents (ot s) d = Some doc" and 2: "canEdit doc (user_ident sock)"
    and nn: "optype ?top = ''noop''" by simp_all
  from h have 3: "optype operation \<noteq> []"
    and 4: "optype operation = ''insert'' \<longrightarrow> optext operation \<noteq> []"
    and 5: "optype operation = ''delete'' \<longrightarrow> oplength operation \<noteq> 0"
    by auto
  have p: "processOperation (ot s) d operation (user_ident sock) = Inr (?r, ?st)"
    by (rule processOperation_noop [OF 1 nn])
  have b: "\<forall>d'. bufferOf ?st d' = bufferOf (ot s) d'"
    by (simp add: bufferOf_def bufferOf_after_getBuffer)
  from on_operation_valid [OF 1 2 3 4 5 p] b
  show "\<exists>s'. on_operation s sock d (Some operation) =
           ([Emit (socket_ident sock) (Operation_ack ?top (version doc) (user_ident sock)),
             EmitToOthers (roomName d) (socket_ident sock)
               (Remote_operation ?top (version doc) (user_ident sock) (username sock)),
             PublishOperation d
               (Remote_operation ?top (version doc) (user_ident sock) (username sock))],
            s') \<and>
           documents (ot s') = documents (ot s) \<and>
           (\<forall>d'. bufferOf (ot s') d' = bufferOf (ot s) d')"
    by simp
next
  show "transformOperation (delete_op 2 2 1) (delete_op 1 3 1)
       = \<lparr>optype = ''noop'', position = 1, optext = [], oplength = 0, baseVersion = 1\<rparr>"
    by (simp add: transformOperation_def delete_op_def)
next
  show "case on_operation (scenario_state ''ABCDE'') socket_U1 ''D'' (Some (delete_op 1 3 1)) of
        (effects1, s1) \<Rightarrow>
          map_option content (documents (ot s1) ''D'') = Some ''AE'' \<and>
          map_option version (documents (ot s1) ''D'') = Some 2 \<and>
          (case on_operation s1 socket_U2 ''D'' (Some (delete_op 2 2 1)) of
             (effects2, s2) \<Rightarrow>
               effects2 ! 0 = Emit ''s2'' (Operation_ack
                   \<lparr>optype = ''noop'', position = 1, optext = [], oplength = 0, baseVersion = 1\<rparr>
                   2 ''U2'') \<and>
               map_option content (documents (ot s2) ''D'') = Some ''AE'' \<and>
               map_option version (documents (ot s2) ''D'') = Some 2 \<and>
               documents (ot s2) ''D'' = documents (ot s1) ''D'' \<and>
               operationBuffers (ot s2) ''D'' = operationBuffers (ot s1) ''D'')"
    by (simp add: ot_defs handler_defs scenario_defs Let_def)
qed

theorem overlapping_delete_collapses_to_noop_witness:
  "optype (delete_op 1 2 1) = ''delete'' \<and> optype (delete_op 1 3 1) = ''delete'' \<and>
   1 \<le> oplength (delete_op 1 2 1) \<and>
   position (delete_op 1 3 1) \<le> position (delete_op 1 2 1) \<and>
   position (delete_op 1 2 1) + oplength (delete_op 1 2 1)
     \<le> position (delete_op 1 3 1) + oplength (delete_op 1 3 1) \<and>
   transformOperation (delete_op 1 2 1) (delete_op 1 3 1)
     = \<lparr>optype = ''noop'', position = 1, optext = [], oplength = 0, baseVersion = 1\<rparr> \<and>
   documents (ot S3_server_state) ''D'' = Some S3_document \<and>
   canEdit S3_document (user_ident socket_U2) \<and>
   oplength (delete_op 2 2 1) \<noteq> 0 \<and>
   optype (transformStep S3_document (bufferOf (ot S3_server_state) ''D'') (delete_op 2 2 1))
     = ''noop'' \<and>
   (\<exists>s'. on_operation S3_server_state socket_U2 ''D'' (Some (delete_op 2 2 1)) =
      ([Emit ''s2'' (Operation_ack
           \<lparr>optype = ''noop'', position = 1, optext = [], oplength = 0, baseVersion = 1\<rparr>
           2 ''U2''),
        EmitToOthers ''doc:D'' ''s2'' (Remote_operation
           \<lparr>optype = ''noop'', position = 1, optext = [], oplength = 0, baseVersion = 1\<rparr>
           2 ''U2'' ''bob''),
        PublishOperation ''D'' (Remote_operation
           \<lparr>optype = ''noop'', position = 1, optext = [], oplength = 0, baseVersion = 1\<rparr>
           2 ''U2'' ''bob'')],
       s') \<and>
      documents (ot s') = documents (ot S3_server_state))"
proof -
  let ?a = "delete_op 1 2 1" and ?b = "delete_op 1 3 1" and ?c = "delete_op 2 2 1"
  let ?n = "\<lparr>optype = ''noop'', position = 1, optext = [], oplength = 0, baseVersion = 1\<rparr>"
  have g: "optype ?a = ''delete'' \<and> optype ?b = ''delete'' \<and> 1 \<le> oplength ?a \<and>
           position ?b \<le> position ?a \<and>
           position ?a + oplength ?a \<le> position ?b + oplength ?b"
    by (simp add: delete_op_def)
  have n: "?a\<lparr>position := position ?b, oplength := 0, optype := ''noop''\<rparr> = ?n"
    by (simp add: delete_op_def)
  from overlapping_delete_collapses_to_noop [THEN conjunct1, rule_format, of ?a ?b, OF g]
  have p1: "transformOperation ?a ?b = ?n" unfolding n .
  have 1: "documents (ot S3_server_state) ''D'' = Some S3_document"
    by (simp add: S3_server_state_def S3_state_def)
  have 2: "canEdit S3_document (user_ident socket_U2)"
    by (simp add: S3_document_def socket_U2_def canEdit_def getUserRole_def EDIT_ROLES_def)
  have 3: "optype ?c = ''delete''" and 4: "oplength ?c \<noteq> 0"
    by (simp_all add: delete_op_def)
  have t: "transformStep S3_document (bufferOf (ot S3_server_state) ''D'') ?c = ?n"
    by (simp add: S3_server_state_def S3_state_def S3_document_def bufferOf_def getBuffer_def
          transformStep_def transformOperation_def delete_op_def)
  have 5: "optype (transformStep S3_document (bufferOf (ot S3_server_state) ''D'') ?c) = ''noop''"
    unfolding t by simp
  have v: "version S3_document = 2" by (simp add: S3_document_def)
  have u: "socket_ident socket_U2 = ''s2''" "user_ident socket_U2 = ''U2''"
    "username socket_U2 = ''bob''" "roomName ''D'' = ''doc:D''"
    by (simp_all add: socket_U2_def roomName_def)
  from overlapping_delete_collapses_to_noop
         [THEN conjunct2, THEN conjunct1, rule_format,
          of S3_server_state "''D''" S3_document socket_U2 ?c]
       1 2 3 4 5
  have p2: "\<exists>s'. on_operation S3_server_state socket_U2 ''D'' (Some ?c) =
      ([Emit ''s2'' (Operation_ack ?n 2 ''U2''),
        EmitToOthers ''doc:D'' ''s2'' (Remote_operation ?n 2 ''U2'' ''bob''),
        PublishOperation ''D'' (Remote_operation ?n 2 ''U2'' ''bob'')],
       s') \<and>
      documents (ot s') = documents (ot S3_server_state)"
    unfolding t v u by blast
  from g p1 1 2 4 5 p2 show ?thesis by blast
qed

section \<open>A noop changes nothing\<close>

text \<open>
  C5. When the operation that leaves the transform step of \<open>processOperation\<close> has type
  noop, the call returns the current version and the document it read; the document
  collection is unchanged (content, version and version history: no snapshot is pushed),
  and the buffer of every document holds the entries it held.
\<close>

theorem noop_leaves_state_unchanged:
  assumes "documents st d = Some doc"
      and "optype (transformStep doc (bufferOf st d) operation) = ''noop''"
  shows "\<exists>r st'. processOperation st d operation u = Inr (r, st') \<and>
           newVersion r = version doc \<and> res_document r = doc \<and>
           optype (transformedOp r) = ''noop'' \<and>
           documents st' = documents st \<and> (\<forall>d'. bufferOf st' d' = bufferOf st d')"
  using assms
  by (simp add: processOperation_noop) (simp add: bufferOf_def bufferOf_after_getBuffer)

theorem noop_leaves_state_unchanged_witness:
  "documents S3_state ''D'' = Some S3_document \<and>
   optype (transformStep S3_document (bufferOf S3_state ''D'') (delete_op 2 2 1)) = ''noop'' \<and>
   (\<exists>r st'. processOperation S3_state ''D'' (delete_op 2 2 1) ''U2'' = Inr (r, st') \<and>
      newVersion r = 2 \<and> res_document r = S3_document \<and> optype (transformedOp r) = ''noop'' \<and>
      documents st' = documents S3_state \<and> (\<forall>d'. bufferOf st' d' = bufferOf S3_state d'))"
proof -
  have 1: "documents S3_state ''D'' = Some S3_document"
    by (simp add: S3_state_def)
  have 2: "optype (transformStep S3_document (bufferOf S3_state ''D'') (delete_op 2 2 1)) = ''noop''"
    by (simp add: scenario_defs bufferOf_def ot_defs)
  have 3: "version S3_document = 2"
    by (simp add: S3_document_def)
  from noop_leaves_state_unchanged [OF 1 2, of "''U2''"] 1 2 3 show ?thesis by simp
qed

section \<open>An accepted operation: version and buffer\<close>

lemma full_buffer_drops_oldest:
  assumes "length buf = 200"
  shows "drop (length (buf @ [e]) - 200) (buf @ [e]) = tl buf @ [e]"
proof -
  from assms have "buf \<noteq> []" by auto
  with assms show ?thesis by (simp add: drop_Suc)
qed

text \<open>Every call that returns keeps the versions of the buffer increasing.\<close>

lemma processOperation_keeps_versions_increasing:
  assumes doc: "documents st d = Some doc"
      and inc: "versions_increasing (version doc) (bufferOf st d)"
      and res: "processOperation st d operation u = Inr (r, st')"
  shows "\<exists>doc'. documents st' d = Some doc' \<and>
           versions_increasing (version doc') (bufferOf st' d)"
proof (cases "optype (transformStep doc (bufferOf st d) operation) = ''noop''")
  case True
  from res have "st' = st\<lparr>operationBuffers := snd (getBuffer d (operationBuffers st))\<rparr>"
    unfolding processOperation_noop [OF doc True] by simp
  with doc inc show ?thesis
    by (simp add: bufferOf_def bufferOf_after_getBuffer)
next
  case False
  let ?top = "transformStep doc (bufferOf st d) operation"
  let ?pushed = "bufferOf st d @ [\<lparr>entry_version = version doc + 1, entry_operation = ?top\<rparr>]"
  have "versions_increasing (version doc + 1) (drop (length ?pushed - 200) ?pushed)"
    by (rule versions_increasing_drop) (rule versions_increasing_push [OF inc])
  with res show ?thesis
    unfolding processOperation_accept [OF doc False] Let_def trim_is_drop
    by (auto simp add: bufferOf_def bufferOf_after_update simp del: length_drop drop_append)
qed

text \<open>
  C6. When the operation that leaves the transform step is not a noop, the stored version
  of the document after the call is the version before plus 1, and so is the version
  returned. The buffer after the call is the buffer before with the pair of the new
  version and the transformed operation appended, cut to its last 200 entries. If the
  versions of the buffer before the call increase strictly and none exceeds the version
  of the document (which holds of an empty buffer and is kept by every call), the same
  holds after the call.
\<close>

theorem accepted_operation_version_and_buffer:
  assumes "documents st d = Some doc"
      and "versions_increasing (version doc) (bufferOf st d)"
      and "optype (transformStep doc (bufferOf st d) operation) \<noteq> ''noop''"
  shows "\<exists>r st' doc'. processOperation st d operation u = Inr (r, st') \<and>
           documents st' d = Some doc' \<and> version doc' = version doc + 1 \<and>
           newVersion r = version doc + 1 \<and>
           transformedOp r = transformStep doc (bufferOf st d) operation \<and>
           bufferOf st' d =
             (let pushed = bufferOf st d @
                    [\<lparr>entry_version = version doc + 1, entry_operation = transformedOp r\<rparr>]
              in drop (length pushed - 200) pushed) \<and>
           versions_increasing (version doc') (bufferOf st' d) \<and>
           length (bufferOf st' d) \<le> 200"
proof -
  let ?top = "transformStep doc (bufferOf st d) operation"
  let ?pushed = "bufferOf st d @ [\<lparr>entry_version = version doc + 1, entry_operation = ?top\<rparr>]"
  have inc: "versions_increasing (version doc + 1) (drop (length ?pushed - 200) ?pushed)"
    by (rule versions_increasing_drop) (rule versions_increasing_push [OF assms(2)])
  have len: "length (drop (length ?pushed - 200) ?pushed) \<le> 200"
    by simp
  show ?thesis
    unfolding processOperation_accept [OF assms(1) assms(3)] Let_def trim_is_drop
    using inc len
    by (simp add: bufferOf_def bufferOf_after_update del: length_drop drop_append)
qed

theorem accepted_operation_version_and_buffer_witness:
  "documents S3_state ''D'' = Some S3_document \<and>
   versions_increasing (version S3_document) (bufferOf S3_state ''D'') \<and>
   optype (transformStep S3_document (bufferOf S3_state ''D'') (insert_op 4 ''Z'' 1)) \<noteq> ''noop'' \<and>
   (\<exists>r st' doc'. processOperation S3_state ''D'' (insert_op 4 ''Z'' 1) ''U2'' = Inr (r, st') \<and>
      documents st' ''D'' = Some doc' \<and> version doc' = 3 \<and> newVersion r = 3 \<and>
      transformedOp r = insert_op 1 ''Z'' 1 \<and>
      bufferOf st' ''D'' =
        [\<lparr>entry_version = 2, entry_operation = delete_op 1 3 1\<rparr>,
         \<lparr>entry_version = 3, entry_operation = insert_op 1 ''Z'' 1\<rparr>] \<and>
      versions_increasing 3 (bufferOf st' ''D'') \<and> length (bufferOf st' ''D'') \<le> 200)"
proof -
  have 1: "documents S3_state ''D'' = Some S3_document"
    by (simp add: S3_state_def)
  have b: "bufferOf S3_state ''D'' = [\<lparr>entry_version = 2, entry_operation = delete_op 1 3 1\<rparr>]"
    by (simp add: S3_state_def bufferOf_def getBuffer_def)
  have 2: "versions_increasing (version S3_document) (bufferOf S3_state ''D'')"
    by (simp add: b versions_increasing_def S3_document_def)
  have t: "transformStep S3_document
               [\<lparr>entry_version = 2, entry_operation = delete_op 1 3 1\<rparr>] (insert_op 4 ''Z'' 1)
             = insert_op 1 ''Z'' 1"
    by (simp add: S3_document_def insert_op_def delete_op_def transformStep_def
          transformOperation_def)
  have 3: "optype (transformStep S3_document (bufferOf S3_state ''D'') (insert_op 4 ''Z'' 1))
             \<noteq> ''noop''"
    unfolding b t by (simp add: insert_op_def)
  have 4: "version S3_document = 2"
    by (simp add: S3_document_def)
  from accepted_operation_version_and_buffer [OF 1 2 3, of "''U2''"]
  have "\<exists>r st' doc'. processOperation S3_state ''D'' (insert_op 4 ''Z'' 1) ''U2'' = Inr (r, st') \<and>
      documents st' ''D'' = Some doc' \<and> version doc' = 3 \<and> newVersion r = 3 \<and>
      transformedOp r = insert_op 1 ''Z'' 1 \<and>
      bufferOf st' ''D'' =
        [\<lparr>entry_version = 2, entry_operation = delete_op 1 3 1\<rparr>,
         \<lparr>entry_version = 3, entry_operation = insert_op 1 ''Z'' 1\<rparr>] \<and>
      versions_increasing 3 (bufferOf st' ''D'') \<and> length (bufferOf st' ''D'') \<le> 200"
    unfolding b t 4 by (auto simp add: Let_def)
  with 1 2 3 show ?thesis by blast
qed

section \<open>Validation of the length of a delete\<close>

lemma delete_of_length_zero_rejected:
  assumes "optype operation = ''delete''" and "oplength operation = 0"
  shows "\<exists>m. on_operation s sock d (Some operation)
                = ([Emit (socket_ident sock) (Error_message m)], s)"
  using assms by (simp add: on_operation_def Let_def split: option.splits)

text \<open>
  C7 says that a delete with \<open>length < 1\<close> is answered with an error message and leaves the
  document unchanged. The handler's test \<^verbatim>\<open>!operation.length\<close> rejects the length 0 only.
  At content \<open>AB\<close>, version 1, the delete at position 1 with length -1 passes the test and
  reaches \<open>processOperation\<close>: the handler acknowledges it with version 2 and the stored
  content is \<open>AAB\<close>.
\<close>

theorem negative_length_delete_is_accepted:
  "oplength (delete_op 1 (- 1) 1) < 1 \<and>
   (case on_operation (scenario_state ''AB'') socket_U1 ''D'' (Some (delete_op 1 (- 1) 1)) of
      (effects, s') \<Rightarrow>
        effects ! 0 = Emit ''s1'' (Operation_ack (delete_op 1 (- 1) 1) 2 ''U1'') \<and>
        map_option content (documents (ot s') ''D'') = Some ''AAB'' \<and>
        map_option version (documents (ot s') ''D'') = Some 2)"
  by (simp add: ot_defs handler_defs scenario_defs Let_def)


section \<open>The transform writes a fresh object only\<close>

text \<open>
  Over the store, \<open>transformOperation\<close> returns the index one past the old store, the old
  store is a prefix of the new one, and the new object is what the function on values
  computes from the two arguments.
\<close>

lemma assign_last: "assign (h @ [x]) (length h) f = h @ [f x]"
  by (simp add: assign_def)

lemma nth_old: "r < length h \<Longrightarrow> (h @ [x]) ! r = h ! r"
  by (simp add: nth_append)

lemma both_inserting_last:
  assumes "opA < length h" and "opB < length h"
  shows "both_inserting (h @ [x]) (length h) opA opB =
    h @ [if optype (h ! opA) = ''insert'' \<and> optype (h ! opB) = ''insert'' then
           (if position (h ! opB) \<le> position (h ! opA)
            then x\<lparr>position := position x + int (length (optext (h ! opB)))\<rparr> else x)
         else x]"
  using assms by (simp add: both_inserting_def assign_last nth_old)

lemma inserting_deleting_last:
  assumes "opA < length h" and "opB < length h"
  shows "inserting_deleting (h @ [x]) (length h) opA opB =
    h @ [if optype (h ! opA) = ''insert'' \<and> optype (h ! opB) = ''delete'' then
           (if position (h ! opB) < position (h ! opA)
            then x\<lparr>position := position x
                     - min (oplength (h ! opB)) (position (h ! opA) - position (h ! opB))\<rparr>
            else x)
         else x]"
  using assms by (simp add: inserting_deleting_def assign_last nth_old)

lemma deleting_inserting_last:
  assumes "opA < length h" and "opB < length h"
  shows "deleting_inserting (h @ [x]) (length h) opA opB =
    h @ [if optype (h ! opA) = ''delete'' \<and> optype (h ! opB) = ''insert'' then
           (if position (h ! opB) \<le> position (h ! opA)
            then x\<lparr>position := position x + int (length (optext (h ! opB)))\<rparr> else x)
         else x]"
  using assms by (simp add: deleting_inserting_def assign_last nth_old)

lemma both_deleting_last:
  assumes "opA < length h" and "opB < length h"
  shows "both_deleting (h @ [x]) (length h) opA opB =
    h @ [if optype (h ! opA) = ''delete'' \<and> optype (h ! opB) = ''delete'' then
           (if position (h ! opB) \<ge> position (h ! opA) + oplength (h ! opA) then x
            else if position (h ! opB) + oplength (h ! opB) \<le> position (h ! opA)
            then x\<lparr>position := position x - oplength (h ! opB)\<rparr>
            else
              (let overlapLength =
                     max 0 (min (position (h ! opA) + oplength (h ! opA))
                                (position (h ! opB) + oplength (h ! opB))
                            - max (position (h ! opA)) (position (h ! opB)))
               in if oplength x - overlapLength \<le> 0
                  then x\<lparr>oplength := 0, position := min (position (h ! opA)) (position (h ! opB)),
                         optype := ''noop''\<rparr>
                  else x\<lparr>oplength := oplength x - overlapLength,
                         position := min (position (h ! opA)) (position (h ! opB))\<rparr>))
         else x]"
  using assms by (simp add: both_deleting_def assign_last nth_old Let_def)

lemmas step_last = both_inserting_last inserting_deleting_last deleting_inserting_last
  both_deleting_last

lemma transformOperation_ref_eq:
  assumes A: "opA < length h" and B: "opB < length h"
  shows "transformOperation_ref h opA opB =
           Some (length h, h @ [transformOperation (h ! opA) (h ! opB)])"
proof -
  let ?a = "optype (h ! opA)" and ?b = "optype (h ! opB)"
  have unf: "transformOperation_ref h opA opB =
      Some (length h, both_deleting (deleting_inserting (inserting_deleting
         (both_inserting (h @ [h ! opA]) (length h) opA opB) (length h) opA opB)
            (length h) opA opB) (length h) opA opB)"
    using A B by (simp add: transformOperation_ref_def spread_copy_def)
  consider (ii) "?a = ''insert''" "?b = ''insert''"
    | (id) "?a = ''insert''" "?b = ''delete''"
    | (di) "?a = ''delete''" "?b = ''insert''"
    | (dd) "?a = ''delete''" "?b = ''delete''"
    | (other) "\<not> (?a = ''insert'' \<and> ?b = ''insert'')" "\<not> (?a = ''insert'' \<and> ?b = ''delete'')"
        "\<not> (?a = ''delete'' \<and> ?b = ''insert'')" "\<not> (?a = ''delete'' \<and> ?b = ''delete'')"
    by blast
  then show ?thesis
  proof cases
    case ii
    then show ?thesis unfolding unf
      by (simp add: step_last [OF A B] transformOperation_def Let_def)
  next
    case id
    then show ?thesis unfolding unf
      by (simp add: step_last [OF A B] transformOperation_def Let_def)
  next
    case di
    then show ?thesis unfolding unf
      by (simp add: step_last [OF A B] transformOperation_def Let_def)
  next
    case dd
    then show ?thesis unfolding unf
      by (simp add: step_last [OF A B] transformOperation_def Let_def)
  next
    case other
    show ?thesis unfolding unf
      by (simp add: step_last [OF A B] transformOperation_def other)
  qed
qed


lemma entry_operation_entry_in: "entry_operation (entry_in h e) = h ! snd e"
  by (simp add: entry_in_def)

lemma transformMissed_ref_eq:
  assumes "t < length h" and "\<forall>e\<in>set es. snd e < n" and "n \<le> length h"
  shows "\<exists>t' h'. transformMissed_ref h t es = Some (t', h') \<and>
           take (length h) h' = h \<and> t' < length h' \<and> (t' = t \<or> length h \<le> t') \<and>
           h' ! t' = transformMissed (h ! t) (map (entry_in h) es)"
  using assms
proof (induction es arbitrary: h t)
  case Nil
  then show ?case by simp
next
  case (Cons e es)
  let ?x = "transformOperation (h ! t) (h ! snd e)"
  let ?h = "h @ [?x]"
  from Cons.prems have e: "snd e < length h" by simp
  have step: "transformOperation_ref h t (snd e) = Some (length h, ?h)"
    by (rule transformOperation_ref_eq [OF Cons.prems(1) e])
  show ?case
  proof (cases "optype ?x = ''noop''")
    case True
    with step show ?thesis by (simp add: entry_operation_entry_in)
  next
    case False
    have same: "map (entry_in ?h) es = map (entry_in h) es"
      using Cons.prems(2,3) by (auto simp add: entry_in_def nth_append)
    from Cons.prems have "\<exists>t' h'. transformMissed_ref ?h (length h) es = Some (t', h') \<and>
           take (length ?h) h' = ?h \<and> t' < length h' \<and> (t' = length h \<or> length ?h \<le> t') \<and>
           h' ! t' = transformMissed (?h ! length h) (map (entry_in ?h) es)"
      by (intro Cons.IH) simp_all
    then obtain t' h' where r: "transformMissed_ref ?h (length h) es = Some (t', h')"
      and tk: "take (length ?h) h' = ?h" and lt: "t' < length h'"
      and fr: "t' = length h \<or> length ?h \<le> t'"
      and val: "h' ! t' = transformMissed (?h ! length h) (map (entry_in ?h) es)"
      by blast
    from tk have "take (length h) (take (length ?h) h') = take (length h) ?h" by simp
    then have tk': "take (length h) h' = h" by (simp add: min_def)
    from fr have fr': "length h \<le> t'" by auto
    from step False r tk' lt fr' val show ?thesis
      unfolding same by (simp add: entry_operation_entry_in)
  qed
qed

lemma transformStep_ref_eq:
  assumes "operation < length h" and "\<forall>e\<in>set buffer. snd e < length h"
  shows "\<exists>t h'. transformStep_ref h (version doc) buffer operation = Some (t, h') \<and>
           take (length h) h' = h \<and> length h \<le> t \<and> t < length h' \<and>
           h' ! t = transformStep doc (map (entry_in h) buffer) (h ! operation)"
proof -
  let ?h = "h @ [h ! operation]"
  let ?es = "filter (\<lambda>entry. fst entry > baseVersion (h ! operation)) buffer"
  show ?thesis
  proof (cases "baseVersion (h ! operation) < version doc")
    case False
    with assms(1) show ?thesis
      by (simp add: transformStep_ref_def transformStep_def spread_copy_def nth_append)
  next
    case True
    have unf: "transformStep_ref h (version doc) buffer operation
                 = transformMissed_ref ?h (length h) ?es"
      using assms(1) True by (simp add: transformStep_ref_def spread_copy_def nth_append)
    have refs: "\<forall>e\<in>set ?es. snd e < length h" using assms(2) by simp
    have "\<exists>t' h'. transformMissed_ref ?h (length h) ?es = Some (t', h') \<and>
           take (length ?h) h' = ?h \<and> t' < length h' \<and> (t' = length h \<or> length ?h \<le> t') \<and>
           h' ! t' = transformMissed (?h ! length h) (map (entry_in ?h) ?es)"
      by (rule transformMissed_ref_eq [OF _ refs]) simp_all
    then obtain t' h' where r: "transformMissed_ref ?h (length h) ?es = Some (t', h')"
      and tk: "take (length ?h) h' = ?h" and lt: "t' < length h'"
      and fr: "t' = length h \<or> length ?h \<le> t'"
      and val: "h' ! t' = transformMissed (?h ! length h) (map (entry_in ?h) ?es)"
      by blast
    from tk have "take (length h) (take (length ?h) h') = take (length h) ?h" by simp
    then have tk': "take (length h) h' = h" by (simp add: min_def)
    from fr have fr': "length h \<le> t'" by auto
    have same: "map (entry_in ?h) ?es = map (entry_in h) ?es"
      using refs by (auto simp add: entry_in_def nth_append)
    have flt: "map (entry_in h) ?es
                 = filter (\<lambda>entry. entry_version entry > baseVersion (h ! operation))
                     (map (entry_in h) buffer)"
      by (simp add: filter_map comp_def entry_in_def)
    from True have pure: "transformStep doc (map (entry_in h) buffer) (h ! operation)
         = transformMissed (h ! operation) (map (entry_in h) ?es)"
      by (simp add: transformStep_def flt)
    from r tk' lt fr' val show ?thesis
      unfolding unf pure same by simp
  qed
qed

text \<open>
  C9. \<open>transformOperation\<close> returns a reference to a freshly built object (it lies outside
  the store the call started from) and leaves every object of that store as it was, its
  two arguments among them; the new object is the transform of the two argument values.
  The same holds of the whole transform step of \<open>processOperation\<close>: the operations that
  the buffer refers to are unchanged after a client operation has been transformed
  against them, and the result is a new object.
\<close>

theorem transformOperation_leaves_arguments_unmodified:
  "(\<forall>h opA opB. opA < length h \<and> opB < length h \<longrightarrow>
      (\<exists>t h'. transformOperation_ref h opA opB = Some (t, h') \<and>
         t = length h \<and> length h' = Suc (length h) \<and> take (length h) h' = h \<and>
         h' ! opA = h ! opA \<and> h' ! opB = h ! opB \<and>
         h' ! t = transformOperation (h ! opA) (h ! opB)))
   \<and> (\<forall>h doc buffer operation.
        operation < length h \<and> list_all (\<lambda>e. snd e < length h) buffer \<longrightarrow>
        (\<exists>t h'. transformStep_ref h (version doc) buffer operation = Some (t, h') \<and>
           length h \<le> t \<and> t < length h' \<and> take (length h) h' = h \<and>
           map (entry_in h') buffer = map (entry_in h) buffer \<and>
           h' ! t = transformStep doc (map (entry_in h) buffer) (h ! operation)))"
proof (intro conjI allI impI)
  fix h :: store and opA opB
  assume "opA < length h \<and> opB < length h"
  then have A: "opA < length h" and B: "opB < length h" by simp_all
  show "\<exists>t h'. transformOperation_ref h opA opB = Some (t, h') \<and>
         t = length h \<and> length h' = Suc (length h) \<and> take (length h) h' = h \<and>
         h' ! opA = h ! opA \<and> h' ! opB = h ! opB \<and>
         h' ! t = transformOperation (h ! opA) (h ! opB)"
    using A B by (simp add: transformOperation_ref_eq nth_append)
next
  fix h :: store and doc :: document and buffer :: "(int \<times> ref) list" and operation
  assume "operation < length h \<and> list_all (\<lambda>e. snd e < length h) buffer"
  then have O: "operation < length h" and R: "\<forall>e\<in>set buffer. snd e < length h"
    by (simp_all add: list_all_iff)
  from transformStep_ref_eq [OF O R, of doc]
  obtain t h' where r: "transformStep_ref h (version doc) buffer operation = Some (t, h')"
    and tk: "take (length h) h' = h" and fr: "length h \<le> t" and lt: "t < length h'"
    and val: "h' ! t = transformStep doc (map (entry_in h) buffer) (h ! operation)"
    by blast
  have "\<forall>e\<in>set buffer. h' ! snd e = h ! snd e"
  proof
    fix e assume "e \<in> set buffer"
    with R have "snd e < length h" by simp
    then have "take (length h) h' ! snd e = h' ! snd e" by simp
    with tk show "h' ! snd e = h ! snd e" by simp
  qed
  then have same: "map (entry_in h') buffer = map (entry_in h) buffer"
    by (simp add: entry_in_def)
  from r tk fr lt val same
  show "\<exists>t h'. transformStep_ref h (version doc) buffer operation = Some (t, h') \<and>
           length h \<le> t \<and> t < length h' \<and> take (length h) h' = h \<and>
           map (entry_in h') buffer = map (entry_in h) buffer \<and>
           h' ! t = transformStep doc (map (entry_in h) buffer) (h ! operation)"
    by simp
qed

theorem transformOperation_leaves_arguments_unmodified_witness:
  "(0::nat) < length [delete_op 2 2 1, delete_op 1 3 1] \<and>
   (1::nat) < length [delete_op 2 2 1, delete_op 1 3 1] \<and>
   (\<exists>t h'. transformOperation_ref [delete_op 2 2 1, delete_op 1 3 1] 0 1 = Some (t, h') \<and>
      t = length [delete_op 2 2 1, delete_op 1 3 1] \<and>
      take (length [delete_op 2 2 1, delete_op 1 3 1]) h' = [delete_op 2 2 1, delete_op 1 3 1] \<and>
      h' ! t = \<lparr>optype = ''noop'', position = 1, optext = [], oplength = 0, baseVersion = 1\<rparr>) \<and>
   list_all (\<lambda>e. snd e < length [delete_op 2 2 1, delete_op 1 3 1]) [(2::int, 1::nat)] \<and>
   (\<exists>t h'. transformStep_ref [delete_op 2 2 1, delete_op 1 3 1] (version S3_document) [(2, 1)] 0
              = Some (t, h') \<and>
      length [delete_op 2 2 1, delete_op 1 3 1] \<le> t \<and>
      take (length [delete_op 2 2 1, delete_op 1 3 1]) h' = [delete_op 2 2 1, delete_op 1 3 1] \<and>
      map (entry_in h') [(2, 1)] = [\<lparr>entry_version = 2, entry_operation = delete_op 1 3 1\<rparr>] \<and>
      optype (h' ! t) = ''noop'')"
proof -
  let ?h = "[delete_op 2 2 1, delete_op 1 3 1]"
  have a: "(0::nat) < length ?h \<and> (1::nat) < length ?h" by simp
  have b: "(0::nat) < length ?h \<and> list_all (\<lambda>e. snd e < length ?h) [(2::int, 1::nat)]" by simp
  have t1: "transformOperation (?h ! 0) (?h ! 1)
              = \<lparr>optype = ''noop'', position = 1, optext = [], oplength = 0, baseVersion = 1\<rparr>"
    by (simp add: transformOperation_def delete_op_def)
  have e: "map (entry_in ?h) [(2, 1)] = [\<lparr>entry_version = 2, entry_operation = delete_op 1 3 1\<rparr>]"
    by (simp add: entry_in_def)
  have t2: "optype (transformStep S3_document
                      [\<lparr>entry_version = 2, entry_operation = delete_op 1 3 1\<rparr>] (?h ! 0)) = ''noop''"
    by (simp add: transformStep_def transformOperation_def delete_op_def S3_document_def)
  from transformOperation_leaves_arguments_unmodified
         [THEN conjunct1, rule_format, where h = ?h and opA = 0 and opB = 1, OF a]
  have p1: "\<exists>t h'. transformOperation_ref ?h 0 1 = Some (t, h') \<and>
      t = length ?h \<and> take (length ?h) h' = ?h \<and>
      h' ! t = \<lparr>optype = ''noop'', position = 1, optext = [], oplength = 0, baseVersion = 1\<rparr>"
    unfolding t1 by blast
  from transformOperation_leaves_arguments_unmodified
         [THEN conjunct2, rule_format, where h = ?h and operation = 0 and buffer = "[(2, 1)]"
            and doc = S3_document, OF b]
  have p2: "\<exists>t h'. transformStep_ref ?h (version S3_document) [(2, 1)] 0 = Some (t, h') \<and>
      length ?h \<le> t \<and> take (length ?h) h' = ?h \<and>
      map (entry_in h') [(2, 1)] = [\<lparr>entry_version = 2, entry_operation = delete_op 1 3 1\<rparr>] \<and>
      optype (h' ! t) = ''noop''"
    unfolding e using t2 by metis
  from a b p1 p2 show ?thesis by blast
qed


section \<open>Editing without joining\<close>

text \<open>What \<open>join_document\<close> establishes: the socket is in the room and the user is active.\<close>

lemma map_set_keys: "fst ` set (map_set k v ps) = insert k (fst ` set ps)"
  by (induction ps) auto

lemma join_document_enters_room:
  assumes "getDocumentWithAccess (documents (ot s)) d (user_ident sock) ReadLevel = Inr (doc, r)"
  shows "socket_ident sock \<in> rooms (snd (on_join_document s sock d)) (roomName d) \<and>
         user_ident sock \<in> set (activeUserIds (snd (on_join_document s sock d)) d)"
  using assms
  by (simp add: on_join_document_def activeUserIds_def getDocumentUsers_def map_set_keys
        case_prod_beta Let_def split: option.splits)


text \<open>
  C10. A session whose user can edit the document, whose socket is not in the room of the
  document and whose user is not in the local active-user map, sends a valid operation
  whose transform is not a noop: the handler processes it. The stored document has the
  operation applied and its version raised by 1, and the handler emits \<open>operation_ack\<close>
  with the transformed operation and the new version to that socket (then
  \<open>remote_operation\<close> to the others in the room and to Redis); room membership and the
  active-user map stay as they were.
\<close>

theorem operation_processed_without_join:
  assumes "documents (ot s) d = Some doc"
      and "canEdit doc (user_ident sock)"
      and "socket_ident sock \<notin> rooms s (roomName d)"
      and "user_ident sock \<notin> set (activeUserIds s d)"
      and "optype operation \<noteq> []"
      and "optype operation = ''insert'' \<longrightarrow> optext operation \<noteq> []"
      and "optype operation = ''delete'' \<longrightarrow> oplength operation \<noteq> 0"
      and "optype (transformStep doc (bufferOf (ot s) d) operation) \<noteq> ''noop''"
  shows "\<exists>s' doc' top. top = transformStep doc (bufferOf (ot s) d) operation \<and>
           on_operation s sock d (Some operation) =
             ([Emit (socket_ident sock) (Operation_ack top (version doc + 1) (user_ident sock)),
               EmitToOthers (roomName d) (socket_ident sock)
                 (Remote_operation top (version doc + 1) (user_ident sock) (username sock)),
               PublishOperation d
                 (Remote_operation top (version doc + 1) (user_ident sock) (username sock))],
              s') \<and>
           documents (ot s') d = Some doc' \<and>
           version doc' = version doc + 1 \<and>
           content doc' = applyOperation (content doc) top \<and>
           rooms s' = rooms s \<and> activeUsers s' = activeUsers s"
  using assms
  by (simp add: on_operation_def processOperation_accept Let_def pushVersionSnapshot_def)

theorem operation_processed_without_join_witness:
  "documents (ot (scenario_state ''AC'')) ''D'' = Some (scenario_document ''AC'') \<and>
   canEdit (scenario_document ''AC'') (user_ident socket_U2) \<and>
   socket_ident socket_U2 \<notin> rooms (scenario_state ''AC'') (roomName ''D'') \<and>
   user_ident socket_U2 \<notin> set (activeUserIds (scenario_state ''AC'') ''D'') \<and>
   (\<exists>s' doc'.
      on_operation (scenario_state ''AC'') socket_U2 ''D'' (Some (insert_op 1 ''B'' 1)) =
        ([Emit ''s2'' (Operation_ack (insert_op 1 ''B'' 1) 2 ''U2''),
          EmitToOthers ''doc:D'' ''s2'' (Remote_operation (insert_op 1 ''B'' 1) 2 ''U2'' ''bob''),
          PublishOperation ''D'' (Remote_operation (insert_op 1 ''B'' 1) 2 ''U2'' ''bob'')],
         s') \<and>
      documents (ot s') ''D'' = Some doc' \<and> version doc' = 2 \<and> content doc' = ''ABC'')"
proof -
  let ?s = "scenario_state ''AC''" and ?doc = "scenario_document ''AC''"
  let ?op = "insert_op 1 ''B'' 1"
  have 1: "documents (ot ?s) ''D'' = Some ?doc" by (simp add: scenario_defs)
  have 2: "canEdit ?doc (user_ident socket_U2)"
    by (simp add: scenario_defs canEdit_def getUserRole_def EDIT_ROLES_def)
  have 3: "socket_ident socket_U2 \<notin> rooms ?s (roomName ''D'')" by (simp add: scenario_defs)
  have 4: "user_ident socket_U2 \<notin> set (activeUserIds ?s ''D'')"
    by (simp add: scenario_defs activeUserIds_def getDocumentUsers_def)
  have 5: "optype ?op \<noteq> []" by (simp add: insert_op_def)
  have 6: "optype ?op = ''insert'' \<longrightarrow> optext ?op \<noteq> []" by (simp add: insert_op_def)
  have 7: "optype ?op = ''delete'' \<longrightarrow> oplength ?op \<noteq> 0" by (simp add: insert_op_def)
  have t: "transformStep ?doc (bufferOf (ot ?s) ''D'') ?op = ?op"
    by (simp add: transformStep_def scenario_defs)
  have 8: "optype (transformStep ?doc (bufferOf (ot ?s) ''D'') ?op) \<noteq> ''noop''"
    unfolding t by (simp add: insert_op_def)
  have a: "applyOperation (content ?doc) ?op = ''ABC''"
    by (simp add: scenario_defs applyOperation_def js_slice_def js_slice_from_def)
  have v: "version ?doc = 1" by (simp add: scenario_defs)
  have u: "socket_ident socket_U2 = ''s2''" "user_ident socket_U2 = ''U2''"
    "username socket_U2 = ''bob''" "roomName ''D'' = ''doc:D''"
    by (simp_all add: socket_U2_def roomName_def)
  from operation_processed_without_join [OF 1 2 3 4 5 6 7 8]
  have "\<exists>s' doc'.
      on_operation ?s socket_U2 ''D'' (Some ?op) =
        ([Emit ''s2'' (Operation_ack ?op 2 ''U2''),
          EmitToOthers ''doc:D'' ''s2'' (Remote_operation ?op 2 ''U2'' ''bob''),
          PublishOperation ''D'' (Remote_operation ?op 2 ''U2'' ''bob'')],
         s') \<and>
      documents (ot s') ''D'' = Some doc' \<and> version doc' = 2 \<and> content doc' = ''ABC''"
    unfolding t v u by (auto simp add: a)
  with 1 2 3 4 show ?thesis by blast
qed

end
